theory Spec2Isabelle
  imports Complex_Main
begin

section \<open>Python primitives used by the engines\<close>

text \<open>
  The exceptions a subscript or an iteration can raise in the code under study.
\<close>

datatype error = IndexError | TypeError | KeyError

text \<open>
  \<^verbatim>\<open>xs[i]\<close> for a non-negative index: IndexError out of range.
\<close>

definition nth_py :: "'a list \<Rightarrow> nat \<Rightarrow> error + 'a" where
  "nth_py xs i = (if i < length xs then Inr (xs ! i) else Inl IndexError)"

text \<open>
  \<^verbatim>\<open>xs[i:j]\<close> for non-negative bounds: never raises, clamps at the end of the sequence, and
  is empty when \<open>j \<le> i\<close>.
\<close>

definition slice :: "'a list \<Rightarrow> nat \<Rightarrow> nat \<Rightarrow> 'a list" where
  "slice xs i j = drop i (take j xs)"

text \<open>
  A loop whose body may raise: the first error ends it.
\<close>

fun fold_err :: "('b \<Rightarrow> 's \<Rightarrow> error + 's) \<Rightarrow> 'b list \<Rightarrow> 's \<Rightarrow> error + 's" where
  "fold_err f [] s = Inr s"
| "fold_err f (x # xs) s = (case f x s of Inl e \<Rightarrow> Inl e | Inr s' \<Rightarrow> fold_err f xs s')"


section \<open>CompositeSourceCreatorEngine.split_inner_polygons\<close>

text \<open>
  One part of a polygon geometry is an array of vertices in which \<open>None\<close> separates the
  rings; the method reads it as a Python sequence (membership, enumeration, slices). A produced feature is the dictionary
  \<^verbatim>\<open>{'attributes': attributes, 'geometry': ...}\<close>; \<open>'a\<close> is whatever the code stores under
  \<^verbatim>\<open>'attributes'\<close> (in \<open>split_row\<close> below: the address of the row's attribute tuple).
\<close>

record ('a, 'p) feature =
  attributes :: 'a
  geometry :: "'p option list"

text \<open>
  The three accumulators of the method: \<^verbatim>\<open>outer_features\<close>, \<^verbatim>\<open>inner_features\<close> and
  \<^verbatim>\<open>total_nones\<close>.
\<close>

record ('a, 'p) split_state =
  outer_features :: "('a, 'p) feature list"
  inner_features :: "('a, 'p) feature list"
  total_nones :: nat

definition init_state :: "('a, 'p) split_state" where
  "init_state = \<lparr>outer_features = [], inner_features = [], total_nones = 0\<rparr>"

text \<open>
  Modelled from the spec: \<^verbatim>\<open>self.reverse\<close> is inherited from \<^verbatim>\<open>engines.Engine\<close>, which is
  not among the source files. The spec calls it \<open>reverse(vertices[i+1:end])\<close>, "the exact
  reverse of its corresponding source-stream segment".
\<close>

definition reverse :: "'p option list \<Rightarrow> 'p option list" where
  "reverse xs = rev xs"

text \<open>
  \<^verbatim>\<open>[i for i, point in enumerate(geometry) if point is None]\<close>
\<close>

definition none_indexes :: "'p option list \<Rightarrow> nat list" where
  "none_indexes g = map fst (filter (\<lambda>(i, point). point = None) (enumerate 0 g))"

definition add_outer :: "'a \<Rightarrow> 'p option list \<Rightarrow> ('a, 'p) split_state \<Rightarrow> ('a, 'p) split_state" where
  "add_outer attrs ring st =
     st\<lparr>outer_features := outer_features st @ [\<lparr>attributes = attrs, geometry = ring\<rparr>]\<rparr>"

definition add_inner :: "'a \<Rightarrow> 'p option list \<Rightarrow> ('a, 'p) split_state \<Rightarrow> ('a, 'p) split_state" where
  "add_inner attrs ring st =
     st\<lparr>inner_features := inner_features st @ [\<lparr>attributes = attrs, geometry = ring\<rparr>]\<rparr>"

text \<open>
  The body of
  \<^verbatim>\<open>for i, (current, next) in enumerate(zip(none_indexes[:-1], none_indexes[1:]))\<close>,
  with its \<^verbatim>\<open>if i == 0 / elif i == len(none_indexes) - 2 / else\<close> chain in the source's
  order. \<open>n\<close> is \<^verbatim>\<open>len(none_indexes)\<close>; the comparison is on Python's integers.
\<close>

definition pair_step ::
  "'a \<Rightarrow> 'p option list \<Rightarrow> nat \<Rightarrow> nat \<times> nat \<times> nat \<Rightarrow> ('a, 'p) split_state \<Rightarrow> ('a, 'p) split_state"
where
  "pair_step attrs g n = (\<lambda>(i, current, nxt) st.
     if i = 0 then
       add_inner attrs (reverse (slice g (current + 1) nxt))
         (add_outer attrs (slice g 0 current) st)
     else if int i = int n - 2 then
       add_inner attrs (reverse (slice g (nxt + 1) (length g)))
         (add_inner attrs (reverse (slice g (current + 1) nxt)) st)
     else
       add_inner attrs (reverse (slice g (current + 1) nxt)) st)"

text \<open>
  The body of \<^verbatim>\<open>for geometry in row_geom\<close>.
\<close>

definition split_geometry ::
  "'a \<Rightarrow> 'p option list \<Rightarrow> ('a, 'p) split_state \<Rightarrow> error + ('a, 'p) split_state"
where
  "split_geometry attrs g st =
     (if None \<in> set g then
        let nis = none_indexes g;
            st1 = st\<lparr>total_nones := total_nones st + length nis\<rparr>
        in if length nis = 1 then
             (case nth_py nis 0 of
                Inl e \<Rightarrow> Inl e
              | Inr n0 \<Rightarrow>
                  Inr (add_inner attrs (reverse (slice g (n0 + 1) (length g)))
                        (add_outer attrs (slice g 0 n0) st1)))
           else
             Inr (fold (pair_step attrs g (length nis))
                    (enumerate 0 (zip (butlast nis) (tl nis))) st1)
      else Inr (add_outer attrs g st))"

text \<open>
  The body of \<^verbatim>\<open>for row in searchCursor\<close>. A row is the tuple \<^verbatim>\<open>(SHAPE@, *fields)\<close>:
  \<^verbatim>\<open>row[0]\<close> is the polygon, iterated part by part, and \<^verbatim>\<open>attributes = row[1:]\<close> is one
  new tuple object per row. The tuple store is a list, an address is a position in it, and
  every feature dictionary of the row holds the address of that one tuple.
\<close>

definition split_row ::
  "'p option list list \<times> 'v list \<Rightarrow> 'v list list \<times> (nat, 'p) split_state
     \<Rightarrow> error + 'v list list \<times> (nat, 'p) split_state"
where
  "split_row row = (\<lambda>(store, st).
     let row_geom = fst row;
         attrs = length store;
         store' = store @ [snd row]
     in case fold_err (split_geometry attrs) row_geom st of
          Inl e \<Rightarrow> Inl e
        | Inr st' \<Rightarrow> Inr (store', st'))"

definition split_inner_polygons ::
  "('p option list list \<times> 'v list) list \<Rightarrow> error + 'v list list \<times> (nat, 'p) split_state"
where
  "split_inner_polygons layer = fold_err split_row layer ([], init_state)"

text \<open>
  The rings of a vertex stream as the spec describes them: the segment before the first
  sentinel, then one segment after each sentinel.
\<close>

fun segments :: "'p option list \<Rightarrow> 'p option list list" where
  "segments [] = [[]]"
| "segments (None # xs) = [] # segments xs"
| "segments (Some p # xs) = (Some p # hd (segments xs)) # tl (segments xs)"


text \<open>
  Where ring \<open>j\<close> of a stream starts and ends, by the positions of the sentinels: ring 0
  starts at 0, ring \<open>j + 1\<close> right after sentinel \<open>j\<close>; a ring ends at the next sentinel,
  the last one at the end of the stream.
\<close>

definition ring_start :: "'p option list \<Rightarrow> nat \<Rightarrow> nat" where
  "ring_start g j = (case j of 0 \<Rightarrow> 0 | Suc i \<Rightarrow> none_indexes g ! i + 1)"

definition ring_end :: "'p option list \<Rightarrow> nat \<Rightarrow> nat" where
  "ring_end g j = (if j < length (none_indexes g) then none_indexes g ! j else length g)"

text \<open>
  The inverse of \<open>segments\<close>: the rings written back with one sentinel between two
  neighbours.
\<close>

fun join :: "'p option list list \<Rightarrow> 'p option list" where
  "join [] = []"
| "join [s] = s"
| "join (s # t # ss) = s @ None # join (t # ss)"

text \<open>
  The dictionary appended for the inner ring between positions \<open>i\<close> and \<open>j\<close>.
\<close>

definition inner_ring :: "'a \<Rightarrow> 'p option list \<Rightarrow> nat \<Rightarrow> nat \<Rightarrow> ('a, 'p) feature" where
  "inner_ring attrs g i j = \<lparr>attributes = attrs, geometry = reverse (slice g (i + 1) j)\<rparr>"

text \<open>
  The number of inner rings the method appends for a part with \<open>k\<close> sentinels.
\<close>

definition inner_count :: "nat \<Rightarrow> nat" where
  "inner_count k = (if k = 2 then 1 else k)"


section \<open>ENCReaderEngine: the records read from the chart file\<close>

text \<open>
  A JSON value as \<^verbatim>\<open>json.loads\<close> returns it. Coordinates are nested arrays of numbers;
  the code moves the numbers around and never computes with them.
\<close>

datatype json = JNull | JBool bool | JNum real | JStr string | JArr "json list"

text \<open>
  \<^verbatim>\<open>v[i]\<close>, \<^verbatim>\<open>for x in v\<close> and \<^verbatim>\<open>len(v)\<close> on a JSON value: a list and a string support
  them, \<^verbatim>\<open>None\<close>, a boolean and a number raise TypeError.
\<close>

fun subscript :: "json \<Rightarrow> nat \<Rightarrow> error + json" where
  "subscript (JArr xs) i = nth_py xs i"
| "subscript (JStr s) i = (if i < length s then Inr (JStr [s ! i]) else Inl IndexError)"
| "subscript _ i = Inl TypeError"

fun iter :: "json \<Rightarrow> error + json list" where
  "iter (JArr xs) = Inr xs"
| "iter (JStr s) = Inr (map (\<lambda>c. JStr [c]) s)"
| "iter _ = Inl TypeError"

fun len :: "json \<Rightarrow> error + nat" where
  "len (JArr xs) = Inr (length xs)"
| "len (JStr s) = Inr (length s)"
| "len _ = Inl TypeError"

text \<open>
  A comprehension whose element expression may raise.
\<close>

fun map_err :: "('a \<Rightarrow> error + 'b) \<Rightarrow> 'a list \<Rightarrow> error + 'b list" where
  "map_err f [] = Inr []"
| "map_err f (x # xs) =
     (case f x of
        Inl e \<Rightarrow> Inl e
      | Inr y \<Rightarrow> (case map_err f xs of Inl e \<Rightarrow> Inl e | Inr ys \<Rightarrow> Inr (y # ys)))"

text \<open>
  The parsed \<^verbatim>\<open>feature.ExportToJson()\<close>: the keys the engine reads are \<^verbatim>\<open>'geometry'\<close>
  (\<^verbatim>\<open>null\<close> for a record without geometry, else an object with \<^verbatim>\<open>'type'\<close> and
  \<^verbatim>\<open>'coordinates'\<close>) and \<^verbatim>\<open>'properties'\<close> (a dictionary, in insertion order).
\<close>

record geometry_obj =
  gtype :: string
  coordinates :: json

record geojson =
  geometry_json :: "geometry_obj option"
  properties :: "(string \<times> json) list"

text \<open>
  An OGR feature as the engine uses it: what \<^verbatim>\<open>ExportToJson()\<close> gives, and the points
  \<^verbatim>\<open>(point.GetX(), point.GetY())\<close> that iterating \<^verbatim>\<open>feature.geometry()\<close> gives.
\<close>

record ogr_feature =
  exported :: geojson
  sub_points :: "(real \<times> real) list"

text \<open>
  The engine's state. Every \<^verbatim>\<open>json.loads\<close> creates a new object; \<open>heap\<close> holds the objects
  and an address is a position in it. \<open>features\<close> is
  \<^verbatim>\<open>self.geometries[kind]['features']\<close>: per kind, the list of the addresses of the
  appended \<^verbatim>\<open>'geojson'\<close> objects. \<open>layers\<close> is \<^verbatim>\<open>self.geometries[kind]['layers']\<close>, and
  \<open>stdout\<close> the lines printed.
\<close>

record 'l class_layers =
  passed :: "'l option"
  failed :: "'l option"

record 'l enc_state =
  heap :: "geojson list"
  features :: "string \<rightharpoonup> nat list"
  layers :: "string \<rightharpoonup> 'l class_layers"
  stdout :: "string list"

text \<open>
  \<^verbatim>\<open>__init__\<close>: the three kinds, each with no feature and no layer.
\<close>

definition enc_init :: "'l enc_state" where
  "enc_init =
     \<lparr>heap = [],
      features = [''Point'' \<mapsto> [], ''LineString'' \<mapsto> [], ''Polygon'' \<mapsto> []],
      layers = [''Point'' \<mapsto> \<lparr>passed = None, failed = None\<rparr>,
                ''LineString'' \<mapsto> \<lparr>passed = None, failed = None\<rparr>,
                ''Polygon'' \<mapsto> \<lparr>passed = None, failed = None\<rparr>],
      stdout = []\<rparr>"

definition json_loads :: "geojson \<Rightarrow> 'l enc_state \<Rightarrow> nat \<times> 'l enc_state" where
  "json_loads obj st = (length (heap st), st\<lparr>heap := heap st @ [obj]\<rparr>)"

text \<open>
  \<^verbatim>\<open>self.geometries[kind]['features'].append({'geojson': obj})\<close>, \<open>obj\<close> by address.
\<close>

definition append_feature :: "string \<Rightarrow> nat \<Rightarrow> 'l enc_state \<Rightarrow> error + 'l enc_state" where
  "append_feature kind a st =
     (case features st kind of
        None \<Rightarrow> Inl KeyError
      | Some fs \<Rightarrow> Inr (st\<lparr>features := (features st)(kind \<mapsto> fs @ [a])\<rparr>))"

text \<open>
  \<^verbatim>\<open>obj['geometry']['type'] = t\<close> and \<^verbatim>\<open>obj['geometry']['coordinates'] = c\<close>, in place.
\<close>

definition set_type :: "nat \<Rightarrow> string \<Rightarrow> 'l enc_state \<Rightarrow> error + 'l enc_state" where
  "set_type a t st =
     (case geometry_json (heap st ! a) of
        None \<Rightarrow> Inl TypeError
      | Some g \<Rightarrow>
          Inr (st\<lparr>heap := (heap st)[a := (heap st ! a)\<lparr>geometry_json := Some (g\<lparr>gtype := t\<rparr>)\<rparr>]\<rparr>))"

definition set_coordinates :: "nat \<Rightarrow> json \<Rightarrow> 'l enc_state \<Rightarrow> error + 'l enc_state" where
  "set_coordinates a c st =
     (case geometry_json (heap st ! a) of
        None \<Rightarrow> Inl TypeError
      | Some g \<Rightarrow>
          Inr (st\<lparr>heap := (heap st)[a := (heap st ! a)\<lparr>geometry_json := Some (g\<lparr>coordinates := c\<rparr>)\<rparr>]\<rparr>))"

text \<open>
  The body of \<^verbatim>\<open>for point in feature.geometry()\<close>: the one template object is updated
  and its address appended.
\<close>

definition explode_point :: "nat \<Rightarrow> real \<times> real \<Rightarrow> 'l enc_state \<Rightarrow> error + 'l enc_state" where
  "explode_point template = (\<lambda>(x, y) st.
     case set_coordinates template (JArr [JNum x, JNum y]) st of
       Inl e \<Rightarrow> Inl e
     | Inr st' \<Rightarrow> append_feature ''Point'' template st')"

text \<open>
  \<^verbatim>\<open>geom_type = feature_json['geometry']['type'] if feature_json['geometry'] else False\<close>;
  \<open>None\<close> stands for \<^verbatim>\<open>False\<close>.
\<close>

definition geom_type_of :: "geojson \<Rightarrow> string option" where
  "geom_type_of feature_json =
     (case geometry_json feature_json of None \<Rightarrow> None | Some g \<Rightarrow> Some (gtype g))"

text \<open>
  The body of \<^verbatim>\<open>for feature in layer\<close>; a feature is \<open>None\<close> when \<^verbatim>\<open>if feature\<close> fails.
\<close>

definition read_feature :: "ogr_feature option \<Rightarrow> 'l enc_state \<Rightarrow> error + 'l enc_state" where
  "read_feature feature st =
     (case feature of
        None \<Rightarrow> Inr st
      | Some f \<Rightarrow>
          let (feature_json, st1) = json_loads (exported f) st;
              geom_type = geom_type_of (exported f)
          in if geom_type \<in> {Some ''Point'', Some ''LineString'', Some ''Polygon''} then
               append_feature (the geom_type) feature_json st1
             else if geom_type = Some ''MultiPoint'' then
               let (feature_template, st2) = json_loads (exported f) st1
               in case set_type feature_template ''Point'' st2 of
                    Inl e \<Rightarrow> Inl e
                  | Inr st3 \<Rightarrow> fold_err (explode_point feature_template) (sub_points f) st3
             else
               (case geom_type of
                  None \<Rightarrow> Inr st1
                | Some t \<Rightarrow>
                    if t \<noteq> [] then Inr (st1\<lparr>stdout := stdout st1 @ [''Unknown feature type: '' @ t]\<rparr>)
                    else Inr st1))"

definition get_enc_geometries ::
  "ogr_feature option list list \<Rightarrow> 'l enc_state \<Rightarrow> error + 'l enc_state"
where
  "get_enc_geometries enc_file st = fold_err (\<lambda>layer. fold_err read_feature layer) enc_file st"

text \<open>
  \<^verbatim>\<open>self.geometries[kind]['features']\<close> as a reader sees it: each entry with the present
  content of its object.
\<close>

definition get_features :: "string \<Rightarrow> 'l enc_state \<Rightarrow> error + geojson list" where
  "get_features kind st =
     (case features st kind of
        None \<Rightarrow> Inl KeyError
      | Some fs \<Rightarrow> Inr (map (\<lambda>a. heap st ! a) fs))"


text \<open>
  What a record contributes, by its kind: the number of features it adds, and the line it
  prints.
\<close>

definition supported_kinds :: "string set" where
  "supported_kinds = {''Point'', ''LineString'', ''Polygon''}"

definition added_count :: "ogr_feature option \<Rightarrow> nat" where
  "added_count feature =
     (case feature of
        None \<Rightarrow> 0
      | Some f \<Rightarrow>
          (case geom_type_of (exported f) of
             None \<Rightarrow> 0
           | Some t \<Rightarrow>
               if t \<in> supported_kinds then 1
               else if t = ''MultiPoint'' then length (sub_points f)
               else 0))"

definition diagnostics :: "ogr_feature option \<Rightarrow> string list" where
  "diagnostics feature =
     (case feature of
        None \<Rightarrow> []
      | Some f \<Rightarrow>
          (case geom_type_of (exported f) of
             None \<Rightarrow> []
           | Some t \<Rightarrow>
               if t \<in> supported_kinds \<or> t = ''MultiPoint'' \<or> t = [] then []
               else [''Unknown feature type: '' @ t]))"

text \<open>
  The state invariant of the reader: the collections are those of the three kinds, every
  entry is the address of an object, and the object has a geometry of the collection's kind.
\<close>

definition kinds_ok :: "'l enc_state \<Rightarrow> bool" where
  "kinds_ok st \<longleftrightarrow>
     dom (features st) = supported_kinds \<and>
     (\<forall>kind fs. features st kind = Some fs \<longrightarrow>
        (\<forall>a \<in> set fs. a < length (heap st) \<and>
           geom_type_of (heap st ! a) = Some kind))"

definition feature_total :: "'l enc_state \<Rightarrow> nat" where
  "feature_total st =
     (\<Sum>kind \<leftarrow> [''Point'', ''LineString'', ''Polygon''].
        case features st kind of None \<Rightarrow> 0 | Some fs \<Rightarrow> length fs)"


section \<open>ENCReaderEngine.perform_spatial_filter\<close>

text \<open>
  The geometries the method builds: \<^verbatim>\<open>arcpy.PointGeometry(arcpy.Point(X=.., Y=..))\<close>,
  \<^verbatim>\<open>arcpy.Polyline(arcpy.Array(points))\<close> and \<^verbatim>\<open>arcpy.Polygon(arcpy.Array(points))\<close>. A
  point keeps the two values it was built from.
\<close>

datatype shape =
  PointGeometry "json \<times> json"
| Polyline "(json \<times> json) list"
| Polygon "(json \<times> json) list"

text \<open>
  A row as \<^verbatim>\<open>insertRow([geometry] + attribute_values)\<close> writes it under
  \<^verbatim>\<open>current_fields = ['SHAPE@'] + list(properties.keys())\<close>, and the in-memory feature
  class with the fields added from \<^verbatim>\<open>get_all_fields\<close>.
\<close>

record row =
  shape :: shape
  field_values :: "(string \<times> string) list"

record feature_class =
  fc_fields :: "string set"
  fc_rows :: "row list"

definition get_all_fields :: "geojson list \<Rightarrow> string set" where
  "get_all_fields fs = (\<Union>feature \<in> set fs. set (map fst (properties feature)))"

text \<open>
  \<^verbatim>\<open>feature['geojson']['geometry']['coordinates']\<close>: subscripting \<^verbatim>\<open>None\<close> raises TypeError.
\<close>

definition coordinates_of :: "geojson \<Rightarrow> error + json" where
  "coordinates_of feature =
     (case geometry_json feature of None \<Rightarrow> Inl TypeError | Some g \<Rightarrow> Inr (coordinates g))"

text \<open>
  \<^verbatim>\<open>arcpy.Point(coord[0], coord[1])\<close>
\<close>

definition make_point :: "json \<Rightarrow> error + json \<times> json" where
  "make_point coord =
     (case subscript coord 0 of
        Inl e \<Rightarrow> Inl e
      | Inr x \<Rightarrow> (case subscript coord 1 of Inl e \<Rightarrow> Inl e | Inr y \<Rightarrow> Inr (x, y)))"

text \<open>
  \<^verbatim>\<open>[arcpy.Point(coord[0], coord[1]) for coord in ring]\<close>
\<close>

definition make_points :: "json \<Rightarrow> error + (json \<times> json) list" where
  "make_points ring = (case iter ring of Inl e \<Rightarrow> Inl e | Inr cs \<Rightarrow> map_err make_point cs)"

text \<open>
  \<^verbatim>\<open>[str(attr) for attr in list(properties.values())]\<close> under the keys; \<open>str\<close> is Python's
  built-in conversion, a parameter here.
\<close>

definition attribute_values :: "(json \<Rightarrow> string) \<Rightarrow> geojson \<Rightarrow> (string \<times> string) list" where
  "attribute_values str feature = map (\<lambda>(k, v). (k, str v)) (properties feature)"

text \<open>
  The bodies of the three \<^verbatim>\<open>for feature in self.geometries[..]['features']\<close> loops: the row
  inserted for a feature.
\<close>

definition point_row :: "(json \<Rightarrow> string) \<Rightarrow> geojson \<Rightarrow> error + row" where
  "point_row str feature =
     (case coordinates_of feature of
        Inl e \<Rightarrow> Inl e
      | Inr coords \<Rightarrow>
          (case make_point coords of
             Inl e \<Rightarrow> Inl e
           | Inr p \<Rightarrow>
               Inr \<lparr>shape = PointGeometry p, field_values = attribute_values str feature\<rparr>))"

definition line_row :: "(json \<Rightarrow> string) \<Rightarrow> geojson \<Rightarrow> error + row" where
  "line_row str feature =
     (case coordinates_of feature of
        Inl e \<Rightarrow> Inl e
      | Inr coords \<Rightarrow>
          (case make_points coords of
             Inl e \<Rightarrow> Inl e
           | Inr points \<Rightarrow>
               Inr \<lparr>shape = Polyline points, field_values = attribute_values str feature\<rparr>))"

text \<open>
  Both branches of \<^verbatim>\<open>if len(polygons) > 1\<close> read ring 0 of the coordinate array.
\<close>

definition polygon_row :: "(json \<Rightarrow> string) \<Rightarrow> geojson \<Rightarrow> error + row" where
  "polygon_row str feature =
     (case coordinates_of feature of
        Inl e \<Rightarrow> Inl e
      | Inr polygons \<Rightarrow>
          (case len polygons of
             Inl e \<Rightarrow> Inl e
           | Inr n \<Rightarrow>
               (case (if n > 1 then subscript polygons 0
                      else (case coordinates_of feature of
                              Inl e \<Rightarrow> Inl e
                            | Inr c \<Rightarrow> subscript c 0)) of
                  Inl e \<Rightarrow> Inl e
                | Inr ring \<Rightarrow>
                    (case make_points ring of
                       Inl e \<Rightarrow> Inl e
                     | Inr points \<Rightarrow>
                         Inr \<lparr>shape = Polygon points,
                              field_values = attribute_values str feature\<rparr>))))"

text \<open>
  The three arcpy calls that end each section of the method, as parameters:
  \<^verbatim>\<open>SelectLayerByLocation(layer, 'INTERSECT', sheets_layer)\<close>,
  \<^verbatim>\<open>MakeFeatureLayer(passed)\<close> and
  \<^verbatim>\<open>SelectLayerByLocation(passed_layer, selection_type='SWITCH_SELECTION')\<close>.
\<close>

record ('l, 'b) arcpy =
  SelectLayerByLocation_INTERSECT :: "feature_class \<Rightarrow> 'b \<Rightarrow> 'l"
  MakeFeatureLayer :: "'l \<Rightarrow> 'l"
  SelectLayerByLocation_SWITCH :: "'l \<Rightarrow> 'l"

text \<open>
  One section of the method (the source has the same section three times, for points, lines
  and polygons): create the feature class with the fields of all features, insert one row
  per feature, select the passed rows, make a layer of them and switch its selection for
  the failed ones; store both under \<^verbatim>\<open>self.geometries[kind]['layers']\<close>.
\<close>

definition classify ::
  "('l, 'b) arcpy \<Rightarrow> (geojson \<Rightarrow> error + row) \<Rightarrow> 'b \<Rightarrow> geojson list \<Rightarrow> error + 'l class_layers"
where
  "classify ap build sheets_layer fs =
     (case map_err build fs of
        Inl e \<Rightarrow> Inl e
      | Inr rows \<Rightarrow>
          let layer = \<lparr>fc_fields = get_all_fields fs, fc_rows = rows\<rparr>;
              passed_sel = SelectLayerByLocation_INTERSECT ap layer sheets_layer;
              passed_layer = MakeFeatureLayer ap passed_sel;
              failed_sel = SelectLayerByLocation_SWITCH ap passed_layer
          in Inr \<lparr>passed = Some passed_sel, failed = Some failed_sel\<rparr>)"

definition filter_kind ::
  "('l, 'b) arcpy \<Rightarrow> (geojson \<Rightarrow> error + row) \<Rightarrow> string \<Rightarrow> string \<Rightarrow> string \<Rightarrow> 'b
     \<Rightarrow> 'l enc_state \<Rightarrow> error + 'l enc_state"
where
  "filter_kind ap build kind building finished sheets_layer st =
     (case get_features kind st of
        Inl e \<Rightarrow> Inl e
      | Inr fs \<Rightarrow>
          (case classify ap build sheets_layer fs of
             Inl e \<Rightarrow> Inl e
           | Inr ls \<Rightarrow>
               (case layers st kind of
                  None \<Rightarrow> Inl KeyError
                | Some _ \<Rightarrow>
                    Inr (st\<lparr>layers := (layers st)(kind \<mapsto> ls),
                            stdout := stdout st @ [building, finished]\<rparr>))))"

definition perform_spatial_filter ::
  "('l, 'b) arcpy \<Rightarrow> (json \<Rightarrow> string) \<Rightarrow> 'b \<Rightarrow> 'l enc_state \<Rightarrow> error + 'l enc_state"
where
  "perform_spatial_filter ap str sheets_layer st =
     (case filter_kind ap (point_row str) ''Point''
             ''Building point features'' ''Finished Point features'' sheets_layer st of
        Inl e \<Rightarrow> Inl e
      | Inr st1 \<Rightarrow>
          (case filter_kind ap (line_row str) ''LineString''
                  ''Building line features'' ''Finished Line features'' sheets_layer st1 of
             Inl e \<Rightarrow> Inl e
           | Inr st2 \<Rightarrow>
               filter_kind ap (polygon_row str) ''Polygon''
                 ''Building Polygon features'' ''Finished Polygon features'' sheets_layer st2))"

text \<open>
  Modelled from the spec: the arcpy selection calls are not code of this repository. The
  spec has the classifier test every feature against the boundary reference ("Intersects-or-
  touches counts as pass; strict disjointness is fail"), with the two results selections
  over the features of the collection. A layer is the rows with the positions of the
  selected ones; \<open>intersects\<close> is the geometric predicate, a parameter; the boundary reference
  is the list of its polygons; the layer made from a selection is over the same rows and
  keeps the selection, and switching selects the rows that were not selected.
\<close>

record layer =
  layer_rows :: "row list"
  selected :: "nat list"

definition select_intersect :: "(shape \<Rightarrow> 'b \<Rightarrow> bool) \<Rightarrow> feature_class \<Rightarrow> 'b list \<Rightarrow> layer" where
  "select_intersect intersects fc sheets =
     \<lparr>layer_rows = fc_rows fc,
      selected = filter (\<lambda>i. \<exists>s \<in> set sheets. intersects (shape (fc_rows fc ! i)) s)
                   [0..<length (fc_rows fc)]\<rparr>"

definition switch_selection :: "layer \<Rightarrow> layer" where
  "switch_selection l =
     l\<lparr>selected := filter (\<lambda>i. i \<notin> set (selected l)) [0..<length (layer_rows l)]\<rparr>"

definition arcpy_spec :: "(shape \<Rightarrow> 'b \<Rightarrow> bool) \<Rightarrow> (layer, 'b list) arcpy" where
  "arcpy_spec intersects =
     \<lparr>SelectLayerByLocation_INTERSECT = select_intersect intersects,
      MakeFeatureLayer = (\<lambda>l. l),
      SelectLayerByLocation_SWITCH = switch_selection\<rparr>"

text \<open>
  The features of a collection that a layer has selected.
\<close>

definition selected_features :: "geojson list \<Rightarrow> layer \<Rightarrow> geojson list" where
  "selected_features fs l = map (\<lambda>i. fs ! i) (selected l)"


text \<open>
  A polygon feature without its hole rings: only ring 0 of the coordinate array is kept.
\<close>

definition drop_holes :: "geojson \<Rightarrow> geojson" where
  "drop_holes feature =
     (case geometry_json feature of
        None \<Rightarrow> feature
      | Some g \<Rightarrow>
          (case coordinates g of
             JArr (ring # holes) \<Rightarrow> feature\<lparr>geometry_json := Some (g\<lparr>coordinates := JArr [ring]\<rparr>)\<rparr>
           | _ \<Rightarrow> feature))"

section \<open>Properties of the ring decomposition\<close>

lemma segments_nonempty: "segments g \<noteq> []"
  by (induction g rule: segments.induct) simp_all

lemma slice_Nil [simp]: "slice [] i j = []"
  by (simp add: slice_def)

lemma slice_to_0 [simp]: "slice xs i 0 = []"
  by (simp add: slice_def)

lemma slice_Cons_0 [simp]: "slice (x # xs) 0 (Suc j) = x # slice xs 0 j"
  by (simp add: slice_def)

lemma slice_Cons_Suc [simp]: "slice (x # xs) (Suc i) (Suc j) = slice xs i j"
  by (simp add: slice_def)

lemma slice_all [simp]: "slice xs 0 (length xs) = xs"
  by (simp add: slice_def)

lemma none_indexes_Nil [simp]: "none_indexes [] = []"
  by (simp add: none_indexes_def)

lemma none_indexes_Cons:
  "none_indexes (x # xs) = (if x = None then [0] else []) @ map Suc (none_indexes xs)"
  by (simp add: none_indexes_def enumerate_Suc_eq filter_map comp_def case_prod_unfold)

lemma none_indexes_empty_iff: "none_indexes g = [] \<longleftrightarrow> None \<notin> set g"
  by (induction g) (auto simp: none_indexes_Cons)

lemma length_segments: "length (segments g) = Suc (length (none_indexes g))"
  by (induction g rule: segments.induct) (simp_all add: none_indexes_Cons segments_nonempty)

lemma segments_slice:
  "j \<le> length (none_indexes g) \<Longrightarrow> segments g ! j = slice g (ring_start g j) (ring_end g j)"
proof (induction g arbitrary: j rule: segments.induct)
  case 1
  then show ?case by (simp add: ring_start_def ring_end_def)
next
  case (2 xs)
  show ?case
  proof (cases j)
    case 0
    then show ?thesis by (simp add: ring_start_def ring_end_def none_indexes_Cons)
  next
    case (Suc i)
    with 2 have i: "i \<le> length (none_indexes xs)" by (simp add: none_indexes_Cons)
    from "2.IH"[OF i] Suc i show ?thesis
      by (cases i) (auto simp add: ring_start_def ring_end_def none_indexes_Cons nth_Cons')
  qed
next
  case (3 p xs)
  from 3 have j: "j \<le> length (none_indexes xs)" by (simp add: none_indexes_Cons)
  show ?case
  proof (cases j)
    case 0
    with "3.IH"[of 0] show ?thesis
      by (simp add: ring_start_def ring_end_def none_indexes_Cons hd_conv_nth segments_nonempty)
  next
    case (Suc i)
    with "3.IH"[OF j] j show ?thesis
      by (simp add: ring_start_def ring_end_def none_indexes_Cons nth_tl length_segments)
  qed
qed


lemma pairs_enumerate:
  "enumerate 0 (zip (butlast nis) (tl nis)) =
     map (\<lambda>i. (i, nis ! i, nis ! Suc i)) [0..<length nis - 1]"
  by (rule nth_equalityI) (simp_all add: nth_enumerate_eq nth_butlast nth_tl)

lemma fold_pair_step:
  assumes "2 \<le> k" "m \<le> k - 1"
  shows "fold (pair_step attrs g k) (map (\<lambda>i. (i, nis ! i, nis ! Suc i)) [0..<m]) st =
     st\<lparr>outer_features := outer_features st @
            (if m = 0 then [] else [\<lparr>attributes = attrs, geometry = slice g 0 (nis ! 0)\<rparr>]),
        inner_features := inner_features st @
            map (\<lambda>i. inner_ring attrs g (nis ! i) (nis ! Suc i)) [0..<m] @
            (if m = k - 1 \<and> 3 \<le> k then [inner_ring attrs g (nis ! (k - 1)) (length g)] else [])\<rparr>"
  using assms(2)
proof (induction m)
  case 0
  with assms(1) show ?case by simp
next
  case (Suc m)
  then have IH: "fold (pair_step attrs g k) (map (\<lambda>i. (i, nis ! i, nis ! Suc i)) [0..<m]) st =
     st\<lparr>outer_features := outer_features st @
            (if m = 0 then [] else [\<lparr>attributes = attrs, geometry = slice g 0 (nis ! 0)\<rparr>]),
        inner_features := inner_features st @
            map (\<lambda>i. inner_ring attrs g (nis ! i) (nis ! Suc i)) [0..<m]\<rparr>"
    by simp
  have c: "int m = int k - 2 \<longleftrightarrow> Suc m = k - 1"
    using Suc.prems assms(1) by auto
  have "fold (pair_step attrs g k) (map (\<lambda>i. (i, nis ! i, nis ! Suc i)) [0..<Suc m]) st =
        pair_step attrs g k (m, nis ! m, nis ! Suc m)
          (fold (pair_step attrs g k) (map (\<lambda>i. (i, nis ! i, nis ! Suc i)) [0..<m]) st)"
    by simp
  also have "\<dots> = pair_step attrs g k (m, nis ! m, nis ! Suc m)
     (st\<lparr>outer_features := outer_features st @
            (if m = 0 then [] else [\<lparr>attributes = attrs, geometry = slice g 0 (nis ! 0)\<rparr>]),
        inner_features := inner_features st @
            map (\<lambda>i. inner_ring attrs g (nis ! i) (nis ! Suc i)) [0..<m]\<rparr>)"
    by (simp only: IH)
  also have "\<dots> = st\<lparr>outer_features := outer_features st @
            (if Suc m = 0 then [] else [\<lparr>attributes = attrs, geometry = slice g 0 (nis ! 0)\<rparr>]),
        inner_features := inner_features st @
            map (\<lambda>i. inner_ring attrs g (nis ! i) (nis ! Suc i)) [0..<Suc m] @
            (if Suc m = k - 1 \<and> 3 \<le> k then [inner_ring attrs g (nis ! (k - 1)) (length g)] else [])\<rparr>"
    using assms(1) Suc.prems
    by (auto simp add: c pair_step_def add_inner_def add_outer_def inner_ring_def)
  finally show ?case .
qed


lemma segments_no_sentinel: "None \<notin> set g \<Longrightarrow> segments g = [g]"
  by (induction g rule: segments.induct) simp_all

lemma inner_ring_segment:
  assumes "i < length (none_indexes g)"
  shows "inner_ring attrs g (none_indexes g ! i) (ring_end g (Suc i)) =
         \<lparr>attributes = attrs, geometry = reverse (segments g ! Suc i)\<rparr>"
  using segments_slice[of "Suc i" g] assms
  by (simp add: inner_ring_def ring_start_def)

lemma outer_ring_segment:
  "slice g 0 (ring_end g 0) = segments g ! 0"
  using segments_slice[of 0 g] by (simp add: ring_start_def)

lemma split_geometry_rings:
  "split_geometry attrs g st =
     Inr (st\<lparr>outer_features := outer_features st @
                 [\<lparr>attributes = attrs, geometry = segments g ! 0\<rparr>],
             inner_features := inner_features st @
                 map (\<lambda>i. \<lparr>attributes = attrs, geometry = reverse (segments g ! Suc i)\<rparr>)
                   [0..<inner_count (length (none_indexes g))],
             total_nones := total_nones st + length (none_indexes g)\<rparr>)"
proof -
  let ?nis = "none_indexes g"
  let ?k = "length ?nis"
  let ?F = "\<lambda>i. \<lparr>attributes = attrs, geometry = reverse (segments g ! Suc i)\<rparr>"
  consider (none) "?k = 0" | (one) "?k = 1" | (many) "2 \<le> ?k" by linarith
  then show ?thesis
  proof cases
    case none
    then have "None \<notin> set g" by (simp add: none_indexes_empty_iff)
    with none show ?thesis
      by (simp add: split_geometry_def segments_no_sentinel add_outer_def inner_count_def)
  next
    case one
    then have mem: "None \<in> set g" using none_indexes_empty_iff[of g] by auto
    from one have e: "ring_end g 0 = ?nis ! 0" "ring_end g (Suc 0) = length g"
      by (simp_all add: ring_end_def)
    have o: "slice g 0 (?nis ! 0) = segments g ! 0"
      using outer_ring_segment[of g] e by simp
    have i: "reverse (slice g (Suc (?nis ! 0)) (length g)) = reverse (segments g ! Suc 0)"
      using inner_ring_segment[of 0 g attrs] one e by (simp add: inner_ring_def)
    show ?thesis
      using one mem
      by (simp add: split_geometry_def nth_py_def add_outer_def add_inner_def o i
          inner_count_def)
  next
    case many
    then have mem: "None \<in> set g" using none_indexes_empty_iff[of g] by auto
    from many have e0: "ring_end g 0 = ?nis ! 0" by (auto simp add: ring_end_def)
    have o: "slice g 0 (?nis ! 0) = segments g ! 0"
      using outer_ring_segment[of g] e0 by simp
    have mid: "map (\<lambda>i. inner_ring attrs g (?nis ! i) (?nis ! Suc i)) [0..<?k - 1] =
               map ?F [0..<?k - 1]"
    proof (rule map_cong[OF refl])
      fix i assume "i \<in> set [0..<?k - 1]"
      then have "i < ?k" "ring_end g (Suc i) = ?nis ! Suc i"
        by (auto simp add: ring_end_def)
      with inner_ring_segment[of i g attrs]
      show "inner_ring attrs g (?nis ! i) (?nis ! Suc i) = ?F i" by simp
    qed
    have lst: "inner_ring attrs g (?nis ! (?k - 1)) (length g) = ?F (?k - 1)"
    proof -
      from many have a: "?k - 1 < ?k" by simp
      from many have "Suc (?k - 1) = ?k" by simp
      then have b: "ring_end g (Suc (?k - 1)) = length g" by (simp only: ring_end_def) simp
      show ?thesis using inner_ring_segment[OF a, of attrs] b by simp
    qed
    have tailcase: "map ?F [0..<?k - 1] @ (if 3 \<le> ?k then [?F (?k - 1)] else []) =
                    map ?F [0..<inner_count ?k]"
    proof (cases "3 \<le> ?k")
      case True
      then have "[0..<?k] = [0..<?k - 1] @ [?k - 1]"
        by (metis Suc_diff_1 less_le_trans upt_Suc_append zero_less_numeral zero_le)
      with True show ?thesis by (simp add: inner_count_def)
    next
      case False
      with many have "?k = 2" by simp
      then show ?thesis by (simp add: inner_count_def)
    qed
    let ?st1 = "st\<lparr>total_nones := total_nones st + ?k\<rparr>"
    have "fold (pair_step attrs g ?k) (enumerate 0 (zip (butlast ?nis) (tl ?nis))) ?st1 =
          ?st1\<lparr>outer_features := outer_features ?st1 @
                 (if ?k - 1 = 0 then []
                  else [\<lparr>attributes = attrs, geometry = slice g 0 (?nis ! 0)\<rparr>]),
             inner_features := inner_features ?st1 @
                 map (\<lambda>i. inner_ring attrs g (?nis ! i) (?nis ! Suc i)) [0..<?k - 1] @
                 (if ?k - 1 = ?k - 1 \<and> 3 \<le> ?k
                  then [inner_ring attrs g (?nis ! (?k - 1)) (length g)] else [])\<rparr>"
      unfolding pairs_enumerate by (rule fold_pair_step[OF many]) simp
    also have "\<dots> =
          st\<lparr>outer_features := outer_features st @
                 [\<lparr>attributes = attrs, geometry = segments g ! 0\<rparr>],
             inner_features := inner_features st @ map ?F [0..<inner_count ?k],
             total_nones := total_nones st + ?k\<rparr>"
      unfolding mid lst o tailcase[symmetric] using many by simp
    finally have "fold (pair_step attrs g ?k) (enumerate 0 (zip (butlast ?nis) (tl ?nis))) ?st1 =
          st\<lparr>outer_features := outer_features st @
                 [\<lparr>attributes = attrs, geometry = segments g ! 0\<rparr>],
             inner_features := inner_features st @ map ?F [0..<inner_count ?k],
             total_nones := total_nones st + ?k\<rparr>" .
    with many mem show ?thesis
      by (simp add: split_geometry_def Let_def)
  qed
qed

lemma segments_join: "join (segments g) = g"
proof (induction g rule: segments.induct)
  case 1
  then show ?case by simp
next
  case (2 xs)
  then show ?case by (cases "segments xs") (simp_all add: segments_nonempty)
next
  case (3 p xs)
  then show ?case
    by (cases "segments xs" rule: join.cases) (simp_all add: segments_nonempty)
qed

lemma segments_no_None: "s \<in> set (segments g) \<Longrightarrow> None \<notin> set s"
proof (induction g arbitrary: s rule: segments.induct)
  case 1
  then show ?case by simp
next
  case (2 xs)
  then show ?case by auto
next
  case (3 p xs)
  then show ?case
    by (cases "segments xs") (auto simp add: segments_nonempty)
qed

lemma segments_first: "segments g ! 0 = takeWhile (\<lambda>p. p \<noteq> None) g"
  by (induction g rule: segments.induct) (simp_all add: hd_conv_nth segments_nonempty)

text \<open>
  Claim C1 (a stream with \<open>k\<close> sentinels gives one outer ring and \<open>k\<close> inner rings; the
  stream \<open>[A,B,C,D, SENTINEL, E,F,G, SENTINEL, H,I,J]\<close> gives the inner rings
  \<open>reverse [E,F,G]\<close> and \<open>reverse [H,I,J]\<close>). On that stream the method appends the outer
  ring \<open>[A,B,C,D]\<close> and the single inner ring \<open>[G,F,E]\<close>: with exactly two sentinels the
  only pair has \<open>i = 0\<close>, the branch \<^verbatim>\<open>elif i == len(none_indexes) - 2\<close> that captures the
  last inner ring is never reached, and \<open>[H,I,J]\<close> is lost.
\<close>

theorem two_sentinels_last_ring_dropped:
  "split_inner_polygons
     [([[Some ''A'', Some ''B'', Some ''C'', Some ''D'', None,
         Some ''E'', Some ''F'', Some ''G'', None,
         Some ''H'', Some ''I'', Some ''J'']], [''H13000''])] =
   Inr ([[''H13000'']],
        \<lparr>outer_features =
           [\<lparr>attributes = 0, geometry = [Some ''A'', Some ''B'', Some ''C'', Some ''D'']\<rparr>],
         inner_features =
           [\<lparr>attributes = 0, geometry = [Some ''G'', Some ''F'', Some ''E'']\<rparr>],
         total_nones = 2\<rparr>)"
  by (simp add: split_inner_polygons_def split_row_def split_geometry_def none_indexes_def
      enumerate_eq_zip upt_rec[of 0] upt_rec[of "Suc _"] pair_step_def add_inner_def
      add_outer_def reverse_def slice_def init_state_def nth_py_def)

text \<open>
  Claim C4: the outer ring is the segment before the first sentinel (the whole stream when
  there is none, and then no inner ring is produced), and every inner ring that is produced
  is the exact reverse of its segment of the source stream: the \<open>j\<close>-th inner ring is the
  reverse of the segment after the \<open>j\<close>-th sentinel.
\<close>

theorem inner_rings_reverse_their_segments:
  "\<exists>st' inners.
     split_geometry attrs g st = Inr st' \<and>
     outer_features st' = outer_features st @
       [\<lparr>attributes = attrs, geometry = takeWhile (\<lambda>p. p \<noteq> None) g\<rparr>] \<and>
     (None \<notin> set g \<longrightarrow> takeWhile (\<lambda>p. p \<noteq> None) g = g \<and> inners = []) \<and>
     inner_features st' = inner_features st @ inners \<and>
     (\<forall>j < length inners.
        Suc j < length (segments g) \<and>
        inners ! j = \<lparr>attributes = attrs, geometry = rev (segments g ! Suc j)\<rparr>)"
proof -
  let ?k = "length (none_indexes g)"
  let ?inners = "map (\<lambda>i. \<lparr>attributes = attrs, geometry = reverse (segments g ! Suc i)\<rparr>)
                   [0..<inner_count ?k]"
  have le: "inner_count ?k \<le> ?k" by (simp add: inner_count_def)
  have none: "None \<notin> set g \<Longrightarrow> takeWhile (\<lambda>p. p \<noteq> None) g = g \<and> ?inners = []"
  proof -
    assume n: "None \<notin> set g"
    then have "?k = 0" using none_indexes_empty_iff[of g] by simp
    moreover have "takeWhile (\<lambda>p. p \<noteq> None) g = g"
      unfolding takeWhile_eq_all_conv
    proof
      fix x assume "x \<in> set g"
      with n show "x \<noteq> None" by (cases x) auto
    qed
    ultimately show ?thesis by (simp add: inner_count_def)
  qed
  have each: "\<forall>j < length ?inners. Suc j < length (segments g) \<and>
        ?inners ! j = \<lparr>attributes = attrs, geometry = rev (segments g ! Suc j)\<rparr>"
    using le by (auto simp add: length_segments reverse_def)
  show ?thesis
    apply (rule exI, rule exI[of _ ?inners])
    apply (rule conjI, rule split_geometry_rings)
    using none each by (simp add: segments_first)
qed


theorem inner_rings_reverse_their_segments_witness:
  "\<exists>st'. split_geometry (0::nat) [Some ''A'', None, Some ''E'', Some ''F''] init_state = Inr st' \<and>
     outer_features st' = [\<lparr>attributes = 0, geometry = [Some ''A'']\<rparr>] \<and>
     0 < length (inner_features st') \<and>
     inner_features st' ! 0 = \<lparr>attributes = 0, geometry = [Some ''F'', Some ''E'']\<rparr>"
proof -
  let ?g = "[Some ''A'', None, Some ''E'', Some ''F'']"
  from inner_rings_reverse_their_segments[of "0::nat" ?g init_state]
  obtain st' inners where
    r: "split_geometry (0::nat) ?g init_state = Inr st'" and
    o: "outer_features st' = outer_features (init_state :: (nat, string) split_state) @
          [\<lparr>attributes = 0, geometry = takeWhile (\<lambda>p. p \<noteq> None) ?g\<rparr>]" and
    i: "inner_features st' = inner_features (init_state :: (nat, string) split_state) @ inners" and
    a: "\<forall>j < length inners. Suc j < length (segments ?g) \<and>
          inners ! j = \<lparr>attributes = 0, geometry = rev (segments ?g ! Suc j)\<rparr>"
    by blast
  have "split_geometry (0::nat) ?g init_state =
        Inr \<lparr>outer_features = [\<lparr>attributes = 0, geometry = [Some ''A'']\<rparr>],
             inner_features = [\<lparr>attributes = 0, geometry = [Some ''F'', Some ''E'']\<rparr>],
             total_nones = 1\<rparr>"
    by (simp add: split_geometry_def none_indexes_def enumerate_eq_zip upt_rec[of 0]
        upt_rec[of "Suc _"] add_inner_def add_outer_def reverse_def slice_def
        init_state_def nth_py_def)
  with r i have len: "length inners = 1" by (auto simp add: init_state_def)
  then have "0 < length inners" by simp
  with a have "inners ! 0 = \<lparr>attributes = 0, geometry = rev (segments ?g ! Suc 0)\<rparr>" by blast
  then have "inners ! 0 = \<lparr>attributes = 0, geometry = [Some ''F'', Some ''E'']\<rparr>" by simp
  with r o i len show ?thesis by (auto simp add: init_state_def)
qed

lemma slice_empty [simp]: "slice xs i i = []"
  by (simp add: slice_def)

text \<open>
  Claim C6: the decomposition of a part never raises, whatever the positions of the
  sentinels; a sentinel as the first element gives an outer ring with no point; and two
  neighbouring sentinels (no vertex between them) give an inner ring with no point.
\<close>

theorem degenerate_streams_do_not_raise:
  "\<exists>st' outer inners.
     split_geometry attrs g st = Inr st' \<and>
     outer_features st' = outer_features st @ [outer] \<and>
     inner_features st' = inner_features st @ inners \<and>
     (g \<noteq> [] \<and> hd g = None \<longrightarrow> geometry outer = []) \<and>
     (\<forall>j. Suc j < length (none_indexes g) \<and> none_indexes g ! Suc j = Suc (none_indexes g ! j)
          \<longrightarrow> j < length inners \<and> geometry (inners ! j) = [])"
proof -
  let ?k = "length (none_indexes g)"
  let ?outer = "\<lparr>attributes = attrs, geometry = segments g ! 0\<rparr>"
  let ?inners = "map (\<lambda>i. \<lparr>attributes = attrs, geometry = reverse (segments g ! Suc i)\<rparr>)
                   [0..<inner_count ?k]"
  have lead: "g \<noteq> [] \<and> hd g = None \<longrightarrow> geometry ?outer = []"
    by (cases g) (auto simp add: segments_first)
  have gap: "j < length ?inners \<and> geometry (?inners ! j) = []"
    if "Suc j < ?k" "none_indexes g ! Suc j = Suc (none_indexes g ! j)" for j
  proof -
    from that(1) have j: "j < inner_count ?k" by (simp add: inner_count_def)
    from that(1) have "segments g ! Suc j = slice g (ring_start g (Suc j)) (ring_end g (Suc j))"
      by (intro segments_slice) simp
    with that have "segments g ! Suc j = []"
      by (simp add: ring_start_def ring_end_def)
    with j show ?thesis by (simp add: reverse_def)
  qed
  show ?thesis
    apply (rule exI, rule exI[of _ ?outer], rule exI[of _ ?inners])
    apply (intro conjI)
        apply (rule split_geometry_rings)
       apply simp
      apply simp
     apply (rule lead)
    using gap apply blast
    done
qed

theorem degenerate_streams_do_not_raise_witness:
  "split_geometry (0::nat) [None, None, Some ''E''] init_state =
     Inr \<lparr>outer_features = [\<lparr>attributes = 0, geometry = []\<rparr>],
          inner_features = [\<lparr>attributes = 0, geometry = []\<rparr>],
          total_nones = 2\<rparr> \<and>
   Suc 0 < length (none_indexes [None, None, Some ''E'']) \<and>
   none_indexes [None, None, Some ''E''] ! Suc 0 = Suc (none_indexes [None, None, Some ''E''] ! 0)"
proof -
  let ?g = "[None, None, Some ''E'']"
  have n: "none_indexes ?g = [0, 1]"
    by (simp add: none_indexes_def enumerate_eq_zip upt_rec[of 0] upt_rec[of "Suc _"])
  from degenerate_streams_do_not_raise[of "0::nat" ?g init_state]
  obtain st' outer inners where
    r: "split_geometry (0::nat) ?g init_state = Inr st'" and
    o: "outer_features st' = outer_features (init_state :: (nat, string) split_state) @ [outer]" and
    i: "inner_features st' = inner_features (init_state :: (nat, string) split_state) @ inners" and
    l: "?g \<noteq> [] \<and> hd ?g = None \<longrightarrow> geometry outer = []" and
    a: "\<forall>j. Suc j < length (none_indexes ?g) \<and>
             none_indexes ?g ! Suc j = Suc (none_indexes ?g ! j)
          \<longrightarrow> j < length inners \<and> geometry (inners ! j) = []"
    by blast
  from l have "geometry outer = []" by simp
  moreover from a[rule_format, of 0] n have "0 < length inners \<and> geometry (inners ! 0) = []"
    by simp
  moreover have "split_geometry (0::nat) ?g init_state =
     Inr \<lparr>outer_features = [\<lparr>attributes = 0, geometry = []\<rparr>],
          inner_features = [\<lparr>attributes = 0, geometry = []\<rparr>],
          total_nones = 2\<rparr>"
    by (simp add: split_geometry_def n pair_step_def add_inner_def add_outer_def reverse_def
        slice_def init_state_def nth_py_def enumerate_eq_zip upt_rec[of 0] upt_rec[of "Suc _"])
  ultimately show ?thesis using n by simp
qed

lemma split_parts_attributes:
  "\<exists>st' os is.
     fold_err (split_geometry a) parts st = Inr st' \<and>
     outer_features st' = outer_features st @ os \<and>
     inner_features st' = inner_features st @ is \<and>
     length os = length parts \<and>
     (\<forall>f \<in> set (os @ is). attributes f = a)"
proof (induction parts arbitrary: st)
  case Nil
  show ?case by simp
next
  case (Cons g parts)
  let ?st1 = "st\<lparr>outer_features := outer_features st @
                 [\<lparr>attributes = a, geometry = segments g ! 0\<rparr>],
             inner_features := inner_features st @
                 map (\<lambda>i. \<lparr>attributes = a, geometry = reverse (segments g ! Suc i)\<rparr>)
                   [0..<inner_count (length (none_indexes g))],
             total_nones := total_nones st + length (none_indexes g)\<rparr>"
  from Cons.IH[of ?st1] obtain st' os "is" where
    r: "fold_err (split_geometry a) parts ?st1 = Inr st'" and
    o: "outer_features st' = outer_features ?st1 @ os" and
    i: "inner_features st' = inner_features ?st1 @ is" and
    l: "length os = length parts" and
    a: "\<forall>f \<in> set (os @ is). attributes f = a"
    by blast
  have step: "fold_err (split_geometry a) (g # parts) st =
              fold_err (split_geometry a) parts ?st1"
    by (subst fold_err.simps(2), subst split_geometry_rings) (simp only: sum.case)
  have res: "fold_err (split_geometry a) (g # parts) st = Inr st'"
    by (simp only: step r)
  show ?case
    apply (rule exI[of _ st'])
    apply (rule exI[of _ "\<lparr>attributes = a, geometry = segments g ! 0\<rparr> # os"])
    apply (rule exI[of _ "map (\<lambda>i. \<lparr>attributes = a, geometry = reverse (segments g ! Suc i)\<rparr>)
                   [0..<inner_count (length (none_indexes g))] @ is"])
    using o i l a by (auto simp only: res) auto
qed

text \<open>
  Claim C8: decomposing a row stores the row's attribute tuple once, whatever the number of
  rings, and every ring feature appended for the row, outer or inner, holds the address of
  that one tuple; so all rings of a row have the row's attributes.
\<close>

theorem rings_share_row_attributes:
  "\<exists>st' os is.
     split_row row (store, st) = Inr (store @ [snd row], st') \<and>
     outer_features st' = outer_features st @ os \<and>
     inner_features st' = inner_features st @ is \<and>
     (\<forall>f \<in> set (os @ is).
        attributes f = length store \<and> (store @ [snd row]) ! attributes f = snd row)"
proof -
  from split_parts_attributes[of "length store" "fst row" st]
  obtain st' os "is" where
    r: "fold_err (split_geometry (length store)) (fst row) st = Inr st'" and
    o: "outer_features st' = outer_features st @ os" and
    i: "inner_features st' = inner_features st @ is" and
    a: "\<forall>f \<in> set (os @ is). attributes f = length store"
    by blast
  show ?thesis
    apply (rule exI[of _ st'], rule exI[of _ os], rule exI[of _ "is"])
    using r o i a by (simp add: split_row_def)
qed

theorem rings_share_row_attributes_witness:
  "\<exists>st'. split_row ([[Some ''A'', None, Some ''E'']], [''priority'', ''scale''])
            ([], init_state) = Inr ([[''priority'', ''scale'']], st') \<and>
     outer_features st' @ inner_features st' \<noteq> [] \<and>
     (\<forall>f \<in> set (outer_features st' @ inner_features st').
        attributes f = 0 \<and> [[''priority'', ''scale'']] ! attributes f = [''priority'', ''scale''])"
proof -
  let ?row = "([[Some ''A'', None, Some ''E'']], [''priority'', ''scale''])"
  have e: "split_row ?row ([], init_state) =
        Inr ([[''priority'', ''scale'']],
             \<lparr>outer_features = [\<lparr>attributes = 0, geometry = [Some ''A'']\<rparr>],
              inner_features = [\<lparr>attributes = 0, geometry = [Some ''E'']\<rparr>],
              total_nones = 1\<rparr>)"
    by (simp add: split_row_def split_geometry_def none_indexes_def enumerate_eq_zip
        upt_rec[of 0] upt_rec[of "Suc _"] add_inner_def add_outer_def reverse_def slice_def
        init_state_def nth_py_def)
  from rings_share_row_attributes[of ?row "[]" init_state] e
  show ?thesis by (auto simp add: init_state_def)
qed


section \<open>Properties of the chart reader\<close>

lemma feature_total_cong: "features st' = features st \<Longrightarrow> feature_total st' = feature_total st"
  by (simp add: feature_total_def)

lemma kinds_ok_lookup:
  "kinds_ok st \<Longrightarrow> kind \<in> supported_kinds \<Longrightarrow> \<exists>fs. features st kind = Some fs"
  unfolding kinds_ok_def by blast

lemma append_feature_ok:
  assumes "kinds_ok st" "kind \<in> supported_kinds" "a < length (heap st)"
    "geom_type_of (heap st ! a) = Some kind"
  shows "\<exists>st'. append_feature kind a st = Inr st' \<and> kinds_ok st' \<and>
           feature_total st' = Suc (feature_total st) \<and> stdout st' = stdout st \<and>
           heap st' = heap st"
proof -
  from kinds_ok_lookup[OF assms(1,2)] obtain fs where fs: "features st kind = Some fs" by blast
  let ?st' = "st\<lparr>features := (features st)(kind \<mapsto> fs @ [a])\<rparr>"
  have r: "append_feature kind a st = Inr ?st'"
    by (simp add: append_feature_def fs)
  have d: "dom (features ?st') = supported_kinds"
    using assms(1,2) by (auto simp add: kinds_ok_def)
  have k: "kinds_ok ?st'"
    unfolding kinds_ok_def
  proof (intro conjI allI impI ballI)
    show "dom (features ?st') = supported_kinds" by (rule d)
  next
    fix kind' fs' b
    assume l: "features ?st' kind' = Some fs'" and b: "b \<in> set fs'"
    show "b < length (heap ?st')"
      using l b assms fs by (auto simp add: kinds_ok_def split: if_splits)
    show "geom_type_of (heap ?st' ! b) = Some kind'"
      using l b assms fs by (auto simp add: kinds_ok_def split: if_splits)
  qed
  have t: "feature_total ?st' = Suc (feature_total st)"
    using assms(2) fs by (auto simp add: feature_total_def supported_kinds_def)
  show ?thesis using r k t by simp
qed

lemma json_loads_ok:
  assumes "kinds_ok st"
  shows "kinds_ok (snd (json_loads obj st))"
  using assms
  by (auto simp add: json_loads_def kinds_ok_def nth_append less_Suc_eq)

lemma json_loads_simps [simp]:
  "fst (json_loads obj st) = length (heap st)"
  "heap (snd (json_loads obj st)) = heap st @ [obj]"
  "features (snd (json_loads obj st)) = features st"
  "stdout (snd (json_loads obj st)) = stdout st"
  by (simp_all add: json_loads_def)

lemma set_coordinates_ok:
  assumes "kinds_ok st" "b < length (heap st)" "geom_type_of (heap st ! b) = Some t"
  shows "\<exists>st'. set_coordinates b c st = Inr st' \<and> kinds_ok st' \<and>
           features st' = features st \<and> stdout st' = stdout st \<and>
           length (heap st') = length (heap st) \<and> geom_type_of (heap st' ! b) = Some t"
proof -
  from assms(3) obtain g where g: "geometry_json (heap st ! b) = Some g" "gtype g = t"
    by (auto simp add: geom_type_of_def split: option.splits)
  let ?st' = "st\<lparr>heap := (heap st)[b := (heap st ! b)\<lparr>geometry_json := Some (g\<lparr>coordinates := c\<rparr>)\<rparr>]\<rparr>"
  have r: "set_coordinates b c st = Inr ?st'" by (simp add: set_coordinates_def g)
  have same: "geom_type_of (heap ?st' ! a) = geom_type_of (heap st ! a)" if "a < length (heap st)" for a
    using that g by (cases "a = b") (simp_all add: geom_type_of_def)
  have k: "kinds_ok ?st'"
    using assms(1) same unfolding kinds_ok_def by (simp; blast)
  show ?thesis using r k same[OF assms(2)] assms(3) by simp
qed

lemma set_type_ok:
  assumes "kinds_ok st" "b < length (heap st)" "geometry_json (heap st ! b) \<noteq> None"
    "\<forall>kind fs. features st kind = Some fs \<longrightarrow> b \<notin> set fs"
  shows "\<exists>st'. set_type b t st = Inr st' \<and> kinds_ok st' \<and>
           features st' = features st \<and> stdout st' = stdout st \<and>
           length (heap st') = length (heap st) \<and> geom_type_of (heap st' ! b) = Some t"
proof -
  from assms(3) obtain g where g: "geometry_json (heap st ! b) = Some g" by auto
  let ?st' = "st\<lparr>heap := (heap st)[b := (heap st ! b)\<lparr>geometry_json := Some (g\<lparr>gtype := t\<rparr>)\<rparr>]\<rparr>"
  have r: "set_type b t st = Inr ?st'" by (simp add: set_type_def g)
  have k: "kinds_ok ?st'"
    unfolding kinds_ok_def
  proof (intro conjI allI impI ballI)
    show "dom (features ?st') = supported_kinds" using assms(1) by (simp add: kinds_ok_def)
  next
    fix kind fs a
    assume l: "features ?st' kind = Some fs" and a: "a \<in> set fs"
    with assms(4) have ne: "a \<noteq> b" by auto
    from l a assms(1) have "a < length (heap st) \<and> geom_type_of (heap st ! a) = Some kind"
      by (simp add: kinds_ok_def)
    with ne show "a < length (heap ?st')" "geom_type_of (heap ?st' ! a) = Some kind"
      by simp_all
  qed
  show ?thesis using r k assms(2) by (simp add: geom_type_of_def)
qed


lemma explode_ok:
  assumes "kinds_ok st" "b < length (heap st)" "geom_type_of (heap st ! b) = Some ''Point''"
  shows "\<exists>st'. fold_err (explode_point b) pts st = Inr st' \<and> kinds_ok st' \<and>
           feature_total st' = feature_total st + length pts \<and> stdout st' = stdout st"
  using assms
proof (induction pts arbitrary: st)
  case Nil
  then show ?case by simp
next
  case (Cons p pts)
  obtain x y where p: "p = (x, y)" by (cases p)
  from set_coordinates_ok[OF Cons.prems, of "JArr [JNum x, JNum y]"] obtain st1 where
    s1: "set_coordinates b (JArr [JNum x, JNum y]) st = Inr st1" "kinds_ok st1"
        "features st1 = features st" "stdout st1 = stdout st"
        "length (heap st1) = length (heap st)" "geom_type_of (heap st1 ! b) = Some ''Point''"
    by blast
  have sup: "''Point'' \<in> supported_kinds" by (simp add: supported_kinds_def)
  from s1(5) Cons.prems(2) have b1: "b < length (heap st1)" by simp
  from append_feature_ok[OF s1(2) sup b1 s1(6)] obtain st2 where
    s2: "append_feature ''Point'' b st1 = Inr st2" "kinds_ok st2"
        "feature_total st2 = Suc (feature_total st1)" "stdout st2 = stdout st1"
        "heap st2 = heap st1"
    by blast
  have step: "explode_point b p st = Inr st2"
    by (simp add: explode_point_def p s1(1) s2(1))
  from s2(5) b1 s1(6) have pre: "b < length (heap st2)" "geom_type_of (heap st2 ! b) = Some ''Point''"
    by simp_all
  from Cons.IH[OF s2(2) pre] obtain st' where
    r: "fold_err (explode_point b) pts st2 = Inr st'" "kinds_ok st'"
       "feature_total st' = feature_total st2 + length pts" "stdout st' = stdout st2"
    by blast
  have "feature_total st1 = feature_total st" by (rule feature_total_cong[OF s1(3)])
  with r s2 s1 step show ?case by simp
qed

lemma read_feature_ok:
  assumes "kinds_ok st"
  shows "\<exists>st'. read_feature f st = Inr st' \<and> kinds_ok st' \<and>
           feature_total st' = feature_total st + added_count f \<and>
           stdout st' = stdout st @ diagnostics f"
proof (cases f)
  case None
  with assms show ?thesis by (simp add: read_feature_def added_count_def diagnostics_def)
next
  case (Some feat)
  let ?st1 = "snd (json_loads (exported feat) st)"
  have k1: "kinds_ok ?st1" by (rule json_loads_ok[OF assms])
  have t1: "feature_total ?st1 = feature_total st" by (rule feature_total_cong) simp
  show ?thesis
  proof (cases "geom_type_of (exported feat)")
    case None
    with Some k1 t1 show ?thesis
      by (simp add: read_feature_def case_prod_beta added_count_def diagnostics_def)
  next
    case (Some t)
    note gt = this
    consider (sup) "t \<in> supported_kinds" | (multi) "t = ''MultiPoint''"
      | (other) "t \<notin> supported_kinds" "t \<noteq> ''MultiPoint''"
      by blast
    then show ?thesis
    proof cases
      case sup
      have a: "length (heap st) < length (heap ?st1)" by simp
      have g: "geom_type_of (heap ?st1 ! length (heap st)) = Some t" by (simp add: gt)
      from append_feature_ok[OF k1 sup a g] obtain st' where
        r: "append_feature t (length (heap st)) ?st1 = Inr st'" "kinds_ok st'"
           "feature_total st' = Suc (feature_total ?st1)" "stdout st' = stdout ?st1"
        by blast
      from sup have c: "Some t \<in> {Some ''Point'', Some ''LineString'', Some ''Polygon''}"
        by (simp add: supported_kinds_def)
      have "read_feature f st = Inr st'"
        using c r(1) by (simp add: read_feature_def \<open>f = Some feat\<close> case_prod_beta gt)
      with r t1 sup show ?thesis
        by (simp add: added_count_def diagnostics_def \<open>f = Some feat\<close> gt)
    next
      case multi
      let ?st2 = "snd (json_loads (exported feat) ?st1)"
      let ?b = "length (heap ?st1)"
      have k2: "kinds_ok ?st2" by (rule json_loads_ok[OF k1])
      have b2: "?b < length (heap ?st2)" by simp
      have "heap ?st2 ! ?b = exported feat" by (simp add: nth_append)
      then have g2: "geometry_json (heap ?st2 ! ?b) \<noteq> None"
        using gt by (auto simp add: geom_type_of_def split: option.splits)
      have fresh: "\<forall>kind fs. features ?st2 kind = Some fs \<longrightarrow> ?b \<notin> set fs"
        using k1 by (auto simp add: kinds_ok_def)
      from set_type_ok[OF k2 b2 g2 fresh, of "''Point''"] obtain st3 where
        s3: "set_type ?b ''Point'' ?st2 = Inr st3" "kinds_ok st3" "features st3 = features ?st2"
            "stdout st3 = stdout ?st2" "length (heap st3) = length (heap ?st2)"
            "geom_type_of (heap st3 ! ?b) = Some ''Point''"
        by blast
      from s3(5) b2 have b3: "?b < length (heap st3)" by simp
      from explode_ok[OF s3(2) b3 s3(6), of "sub_points feat"] obtain st' where
        r: "fold_err (explode_point ?b) (sub_points feat) st3 = Inr st'" "kinds_ok st'"
           "feature_total st' = feature_total st3 + length (sub_points feat)"
           "stdout st' = stdout st3"
        by blast
      have t3: "feature_total st3 = feature_total st"
        using feature_total_cong[OF s3(3)] feature_total_cong[of ?st2 ?st1] t1 by simp
      have "read_feature f st = Inr st'"
        using s3(1) r(1) multi
        by (simp add: read_feature_def \<open>f = Some feat\<close> case_prod_beta gt)
      with r t3 s3 multi show ?thesis
        by (simp add: added_count_def diagnostics_def \<open>f = Some feat\<close> gt supported_kinds_def)
    next
      case other
      from other have c: "Some t \<notin> {Some ''Point'', Some ''LineString'', Some ''Polygon''}"
        by (simp add: supported_kinds_def)
      let ?st' = "if t \<noteq> [] then ?st1\<lparr>stdout := stdout ?st1 @ [''Unknown feature type: '' @ t]\<rparr>
                  else ?st1"
      have r: "read_feature f st = Inr ?st'"
        using c other(2)
        by (simp add: read_feature_def \<open>f = Some feat\<close> case_prod_beta gt)
      have k: "kinds_ok ?st'" using k1 by (simp add: kinds_ok_def)
      have t: "feature_total ?st' = feature_total st"
        using t1 by (simp add: feature_total_def)
      show ?thesis
        using r k t other
        by (simp add: added_count_def diagnostics_def \<open>f = Some feat\<close> gt)
    qed
  qed
qed


lemma read_layer_ok:
  assumes "kinds_ok st"
  shows "\<exists>st'. fold_err read_feature layer st = Inr st' \<and> kinds_ok st' \<and>
           feature_total st' = feature_total st + sum_list (map added_count layer) \<and>
           stdout st' = stdout st @ concat (map diagnostics layer)"
  using assms
proof (induction layer arbitrary: st)
  case Nil
  then show ?case by simp
next
  case (Cons f layer)
  from read_feature_ok[OF Cons.prems, of f] obtain st1 where
    s1: "read_feature f st = Inr st1" "kinds_ok st1"
        "feature_total st1 = feature_total st + added_count f"
        "stdout st1 = stdout st @ diagnostics f"
    by blast
  from Cons.IH[OF s1(2)] obtain st' where
    r: "fold_err read_feature layer st1 = Inr st'" "kinds_ok st'"
       "feature_total st' = feature_total st1 + sum_list (map added_count layer)"
       "stdout st' = stdout st1 @ concat (map diagnostics layer)"
    by blast
  from s1 r show ?case by simp
qed

text \<open>
  Claim C2 (a cluster of \<open>N\<close> coordinates gives \<open>N\<close> Point features, each with the coordinate
  of its own source point and the cluster's attributes; the cluster \<open>[(1,2),(3,4)]\<close> with
  \<open>{"depth": 5}\<close> gives \<open>{(1,2), {"depth":5}}\<close> and \<open>{(3,4), {"depth":5}}\<close>). The reader
  appends the one template object once per point and overwrites its coordinates each time,
  so on that cluster the Point collection reads as two features that both carry \<open>(3,4)\<close>.
\<close>

theorem multipoint_features_share_last_point:
  "\<exists>st. get_enc_geometries
          [[Some \<lparr>exported =
                   \<lparr>geometry_json =
                      Some \<lparr>gtype = ''MultiPoint'',
                            coordinates = JArr [JArr [JNum 1, JNum 2], JArr [JNum 3, JNum 4]]\<rparr>,
                    properties = [(''depth'', JNum 5)]\<rparr>,
                 sub_points = [(1, 2), (3, 4)]\<rparr>]]
          (enc_init :: unit enc_state) = Inr st \<and>
        get_features ''Point'' st =
          Inr [\<lparr>geometry_json = Some \<lparr>gtype = ''Point'', coordinates = JArr [JNum 3, JNum 4]\<rparr>,
                properties = [(''depth'', JNum 5)]\<rparr>,
               \<lparr>geometry_json = Some \<lparr>gtype = ''Point'', coordinates = JArr [JNum 3, JNum 4]\<rparr>,
                properties = [(''depth'', JNum 5)]\<rparr>]"
  by (simp add: get_enc_geometries_def read_feature_def enc_init_def json_loads_def
      geom_type_of_def set_type_def explode_point_def set_coordinates_def append_feature_def
      get_features_def)

text \<open>
  Claim C7 as stated has a record of an empty geometry kind skipped with a diagnostic. A
  record whose geometry is \<^verbatim>\<open>null\<close> is skipped and nothing is printed: the print is under
  \<^verbatim>\<open>if geom_type\<close>.
\<close>

theorem empty_geometry_skipped_silently:
  "read_feature (Some \<lparr>exported = \<lparr>geometry_json = None, properties = []\<rparr>, sub_points = []\<rparr>)
     (enc_init :: unit enc_state) =
     Inr (enc_init\<lparr>heap := [\<lparr>geometry_json = None, properties = []\<rparr>]\<rparr>) \<and>
   stdout (enc_init\<lparr>heap := [\<lparr>geometry_json = None, properties = []\<rparr>]\<rparr> :: unit enc_state) = []"
  by (simp add: read_feature_def enc_init_def json_loads_def geom_type_of_def)

text \<open>
  Claim C7, amended: from a state whose collections are those of the three kinds (as
  \<^verbatim>\<open>__init__\<close> leaves it), reading any record stream never raises; afterwards the
  collections are still those of Point, LineString and Polygon and every entry has a
  geometry of its collection's kind; the number of entries grows by one per record of a
  supported kind and by the number of points per MultiPoint record, so nothing is added for
  any other record; and one diagnostic line is printed per record of another, non-empty
  kind, none for a record without geometry.
\<close>

theorem reader_adds_only_supported_kinds:
  assumes "kinds_ok st"
  shows "\<exists>st'. get_enc_geometries enc_file st = Inr st' \<and> kinds_ok st' \<and>
           feature_total st' = feature_total st + sum_list (map added_count (concat enc_file)) \<and>
           stdout st' = stdout st @ concat (map diagnostics (concat enc_file))"
  using assms unfolding get_enc_geometries_def
proof (induction enc_file arbitrary: st)
  case Nil
  then show ?case by simp
next
  case (Cons layer enc_file)
  from read_layer_ok[OF Cons.prems, of layer] obtain st1 where
    s1: "fold_err read_feature layer st = Inr st1" "kinds_ok st1"
        "feature_total st1 = feature_total st + sum_list (map added_count layer)"
        "stdout st1 = stdout st @ concat (map diagnostics layer)"
    by blast
  from Cons.IH[OF s1(2)] obtain st' where
    r: "fold_err (\<lambda>layer. fold_err read_feature layer) enc_file st1 = Inr st'" "kinds_ok st'"
       "feature_total st' = feature_total st1 + sum_list (map added_count (concat enc_file))"
       "stdout st' = stdout st1 @ concat (map diagnostics (concat enc_file))"
    by blast
  from s1 r show ?case by simp
qed

lemma kinds_ok_init: "kinds_ok (enc_init :: 'l enc_state)"
  by (auto simp add: kinds_ok_def enc_init_def supported_kinds_def split: if_splits)

theorem reader_adds_only_supported_kinds_witness:
  "kinds_ok (enc_init :: unit enc_state) \<and>
   (\<exists>st'. get_enc_geometries
       [[Some \<lparr>exported = \<lparr>geometry_json = Some \<lparr>gtype = ''Point'', coordinates = JArr [JNum 1, JNum 2]\<rparr>,
                            properties = []\<rparr>, sub_points = []\<rparr>,
         Some \<lparr>exported = \<lparr>geometry_json = Some \<lparr>gtype = ''GeometryCollection'', coordinates = JNull\<rparr>,
                            properties = []\<rparr>, sub_points = []\<rparr>,
         Some \<lparr>exported = \<lparr>geometry_json = None, properties = []\<rparr>, sub_points = []\<rparr>]]
       (enc_init :: unit enc_state) = Inr st' \<and> kinds_ok st' \<and>
     feature_total st' = 1 \<and>
     stdout st' = [''Unknown feature type: GeometryCollection''])"
proof -
  have k: "kinds_ok (enc_init :: unit enc_state)" by (rule kinds_ok_init)
  have t: "feature_total (enc_init :: unit enc_state) = 0" "stdout (enc_init :: unit enc_state) = []"
    by (simp_all add: feature_total_def enc_init_def)
  show ?thesis
    using k t reader_adds_only_supported_kinds[OF k,
      of "[[Some \<lparr>exported = \<lparr>geometry_json = Some \<lparr>gtype = ''Point'', coordinates = JArr [JNum 1, JNum 2]\<rparr>,
                            properties = []\<rparr>, sub_points = []\<rparr>,
         Some \<lparr>exported = \<lparr>geometry_json = Some \<lparr>gtype = ''GeometryCollection'', coordinates = JNull\<rparr>,
                            properties = []\<rparr>, sub_points = []\<rparr>,
         Some \<lparr>exported = \<lparr>geometry_json = None, properties = []\<rparr>, sub_points = []\<rparr>]]"]
    by (simp add: added_count_def diagnostics_def geom_type_of_def supported_kinds_def)
qed


section \<open>Properties of the spatial filter\<close>

lemma map_err_length: "map_err f xs = Inr ys \<Longrightarrow> length ys = length xs"
  by (induction xs arbitrary: ys) (auto split: sum.splits)

lemma map_err_nth:
  "map_err f xs = Inr ys \<Longrightarrow> i < length xs \<Longrightarrow> f (xs ! i) = Inr (ys ! i)"
proof (induction xs arbitrary: ys i)
  case Nil
  then show ?case by simp
next
  case (Cons x xs)
  then show ?case by (cases i) (auto split: sum.splits)
qed

lemma map_err_all:
  "(\<And>x. x \<in> set xs \<Longrightarrow> f x = Inr (g x)) \<Longrightarrow> map_err f xs = Inr (map g xs)"
  by (induction xs) simp_all

lemma map_err_map: "map_err f (map h xs) = map_err (\<lambda>x. f (h x)) xs"
  by (induction xs) (simp_all split: sum.splits)

lemma attribute_values_geometry [simp]:
  "attribute_values str (feature\<lparr>geometry_json := x\<rparr>) = attribute_values str feature"
  by (simp add: attribute_values_def)

lemma polygon_row_drop_holes: "polygon_row str (drop_holes feature) = polygon_row str feature"
proof (cases "geometry_json feature")
  case None
  then show ?thesis by (simp add: drop_holes_def)
next
  case (Some g)
  show ?thesis
  proof (cases "coordinates g")
    case (JArr rings)
    show ?thesis
    proof (cases rings)
      case Nil
      with Some JArr show ?thesis by (simp add: drop_holes_def)
    next
      case (Cons ring holes)
      with Some JArr show ?thesis
        by (simp add: drop_holes_def polygon_row_def coordinates_of_def nth_py_def
            split: sum.splits)
    qed
  qed (simp_all add: drop_holes_def Some)
qed

lemma properties_drop_holes: "properties (drop_holes feature) = properties feature"
  by (simp add: drop_holes_def split: option.splits json.splits list.splits)

lemma get_all_fields_drop_holes: "get_all_fields (map drop_holes fs) = get_all_fields fs"
  by (simp add: get_all_fields_def properties_drop_holes)

text \<open>
  Claim C10: the row inserted for a polygon feature has the polygon built from ring 0 of the
  coordinate array alone, whatever rings follow; a feature and the same feature without its
  hole rings give the same row, so a collection and the same collection without hole rings
  give the same layer and the same passed and failed results, whatever the selection calls
  do.
\<close>

theorem polygon_test_geometry_ignores_holes:
  "polygon_row str
     (feature\<lparr>geometry_json := Some (g\<lparr>coordinates := JArr (ring # holes)\<rparr>)\<rparr>) =
   (case make_points ring of
      Inl e \<Rightarrow> Inl e
    | Inr points \<Rightarrow> Inr \<lparr>shape = Polygon points, field_values = attribute_values str feature\<rparr>) \<and>
   polygon_row str (drop_holes feature) = polygon_row str feature \<and>
   classify ap (polygon_row str) sheets_layer (map drop_holes fs) =
   classify ap (polygon_row str) sheets_layer fs"
proof -
  have a: "polygon_row str
     (feature\<lparr>geometry_json := Some (g\<lparr>coordinates := JArr (ring # holes)\<rparr>)\<rparr>) =
   (case make_points ring of
      Inl e \<Rightarrow> Inl e
    | Inr points \<Rightarrow> Inr \<lparr>shape = Polygon points, field_values = attribute_values str feature\<rparr>)"
    by (simp add: polygon_row_def coordinates_of_def nth_py_def split: sum.splits)
  have b: "map_err (polygon_row str) (map drop_holes fs) = map_err (polygon_row str) fs"
    by (simp add: map_err_map polygon_row_drop_holes)
  have c: "classify ap (polygon_row str) sheets_layer (map drop_holes fs) =
           classify ap (polygon_row str) sheets_layer fs"
    unfolding classify_def b get_all_fields_drop_holes ..
  from a c show ?thesis by (simp add: polygon_row_drop_holes)
qed


lemma classify_spec:
  "classify (arcpy_spec intersects) build sheets fs =
     (case map_err build fs of
        Inl e \<Rightarrow> Inl e
      | Inr rows \<Rightarrow>
          Inr \<lparr>passed = Some \<lparr>layer_rows = rows,
                   selected = filter (\<lambda>i. \<exists>s \<in> set sheets. intersects (shape (rows ! i)) s)
                                [0..<length rows]\<rparr>,
               failed = Some \<lparr>layer_rows = rows,
                   selected = filter (\<lambda>i. \<not> (\<exists>s \<in> set sheets. intersects (shape (rows ! i)) s))
                                [0..<length rows]\<rparr>\<rparr>)"
proof (cases "map_err build fs")
  case (Inl e)
  then show ?thesis by (simp add: classify_def)
next
  case (Inr rows)
  have "filter (\<lambda>i. i \<notin> set (filter (\<lambda>i. \<exists>s \<in> set sheets. intersects (shape (rows ! i)) s)
                                [0..<length rows])) [0..<length rows] =
        filter (\<lambda>i. \<not> (\<exists>s \<in> set sheets. intersects (shape (rows ! i)) s)) [0..<length rows]"
    by (rule filter_cong) auto
  with Inr show ?thesis
    by (simp add: classify_def arcpy_spec_def select_intersect_def switch_selection_def)
qed

lemma classify_spec_partition:
  assumes "classify (arcpy_spec intersects) build sheets fs = Inr ls"
  shows "\<exists>p f. passed ls = Some p \<and> failed ls = Some f \<and>
           length (layer_rows p) = length fs \<and> layer_rows f = layer_rows p \<and>
           set (selected p) \<union> set (selected f) = {0..<length fs} \<and>
           set (selected p) \<inter> set (selected f) = {} \<and>
           distinct (selected p) \<and> distinct (selected f) \<and>
           length (selected p) + length (selected f) = length fs"
proof -
  from assms obtain rows where rows: "map_err build fs = Inr rows"
    by (cases "map_err build fs") (simp_all add: classify_def)
  have n: "length rows = length fs" by (rule map_err_length[OF rows])
  let ?P = "\<lambda>i. \<exists>s \<in> set sheets. intersects (shape (rows ! i)) s"
  have len: "length (filter ?P [0..<length fs]) + length (filter (\<lambda>i. \<not> ?P i) [0..<length fs]) =
             length fs"
    using sum_length_filter_compl[of ?P "[0..<length fs]"] by simp
  from assms rows have ls: "ls = \<lparr>passed = Some \<lparr>layer_rows = rows,
                   selected = filter ?P [0..<length rows]\<rparr>,
               failed = Some \<lparr>layer_rows = rows,
                   selected = filter (\<lambda>i. \<not> ?P i) [0..<length rows]\<rparr>\<rparr>"
    by (simp add: classify_spec)
  show ?thesis
    unfolding ls using n len by auto
qed

lemma get_features_layers [simp]:
  "get_features kind (st\<lparr>layers := l, stdout := out\<rparr>) = get_features kind st"
  by (simp add: get_features_def split: option.splits)

lemma filter_kind_result:
  assumes "filter_kind ap build kind b f sheets st = Inr st'"
  shows "\<exists>fs ls. get_features kind st = Inr fs \<and> classify ap build sheets fs = Inr ls \<and>
           st' = st\<lparr>layers := (layers st)(kind \<mapsto> ls), stdout := stdout st @ [b, f]\<rparr>"
  using assms
  by (auto simp add: filter_kind_def split: sum.splits option.splits)

lemma perform_spatial_filter_layers:
  assumes "perform_spatial_filter ap str sheets st = Inr st'"
  shows "\<exists>pf pl lf ll gf gl.
           get_features ''Point'' st = Inr pf \<and>
           classify ap (point_row str) sheets pf = Inr pl \<and> layers st' ''Point'' = Some pl \<and>
           get_features ''LineString'' st = Inr lf \<and>
           classify ap (line_row str) sheets lf = Inr ll \<and> layers st' ''LineString'' = Some ll \<and>
           get_features ''Polygon'' st = Inr gf \<and>
           classify ap (polygon_row str) sheets gf = Inr gl \<and> layers st' ''Polygon'' = Some gl"
proof -
  from assms obtain st1 st2 where
    a: "filter_kind ap (point_row str) ''Point''
             ''Building point features'' ''Finished Point features'' sheets st = Inr st1" and
    b: "filter_kind ap (line_row str) ''LineString''
                  ''Building line features'' ''Finished Line features'' sheets st1 = Inr st2" and
    c: "filter_kind ap (polygon_row str) ''Polygon''
                 ''Building Polygon features'' ''Finished Polygon features'' sheets st2 = Inr st'"
    by (auto simp add: perform_spatial_filter_def split: sum.splits)
  from filter_kind_result[OF a] obtain pf pl where
    p: "get_features ''Point'' st = Inr pf" "classify ap (point_row str) sheets pf = Inr pl"
       "st1 = st\<lparr>layers := (layers st)(''Point'' \<mapsto> pl),
                 stdout := stdout st @ [''Building point features'', ''Finished Point features'']\<rparr>"
    by blast
  from filter_kind_result[OF b] obtain lf ll where
    l: "get_features ''LineString'' st1 = Inr lf" "classify ap (line_row str) sheets lf = Inr ll"
       "st2 = st1\<lparr>layers := (layers st1)(''LineString'' \<mapsto> ll),
                 stdout := stdout st1 @ [''Building line features'', ''Finished Line features'']\<rparr>"
    by blast
  from filter_kind_result[OF c] obtain gf gl where
    g: "get_features ''Polygon'' st2 = Inr gf" "classify ap (polygon_row str) sheets gf = Inr gl"
       "st' = st2\<lparr>layers := (layers st2)(''Polygon'' \<mapsto> gl),
                 stdout := stdout st2 @ [''Building Polygon features'', ''Finished Polygon features'']\<rparr>"
    by blast
  from p l g show ?thesis by simp
qed

text \<open>
  Claim C3: when the spatial filter completes, then for each of the three kinds the passed
  and the failed selection are over the rows of the collection, one row per feature, every
  row is selected in exactly one of the two, and the two counts add up to the size of the
  collection.
\<close>

theorem classification_partitions_collection:
  assumes "perform_spatial_filter (arcpy_spec intersects) str sheets st = Inr st'"
    and "kind \<in> supported_kinds"
  shows "\<exists>fs ls p f.
           get_features kind st = Inr fs \<and> layers st' kind = Some ls \<and>
           passed ls = Some p \<and> failed ls = Some f \<and>
           length (layer_rows p) = length fs \<and> layer_rows f = layer_rows p \<and>
           set (selected p) \<union> set (selected f) = {0..<length fs} \<and>
           set (selected p) \<inter> set (selected f) = {} \<and>
           distinct (selected p) \<and> distinct (selected f) \<and>
           length (selected p) + length (selected f) = length fs"
proof -
  from perform_spatial_filter_layers[OF assms(1)] assms(2)
  obtain build fs ls where
    r: "get_features kind st = Inr fs" "classify (arcpy_spec intersects) build sheets fs = Inr ls"
       "layers st' kind = Some ls"
    by (auto simp add: supported_kinds_def)
  from classify_spec_partition[OF r(2)] r(1,3) show ?thesis by blast
qed

text \<open>
  Claim C5: against an empty boundary reference the section completes whenever the rows can
  be built; no row is passed and every row is failed.
\<close>

theorem empty_boundary_fails_all:
  assumes "map_err build fs = Inr rows"
  shows "classify (arcpy_spec intersects) build [] fs =
           Inr \<lparr>passed = Some \<lparr>layer_rows = rows, selected = []\<rparr>,
                failed = Some \<lparr>layer_rows = rows, selected = [0..<length fs]\<rparr>\<rparr> \<and>
         length ([] :: nat list) = 0 \<and> length [0..<length fs] = length fs"
  using assms map_err_length[OF assms] by (simp add: classify_spec)

text \<open>
  Claim C9: classifying the passed sub-collection again against the same boundary reference
  completes, passes every one of its features and fails none.
\<close>

theorem reclassifying_passed_is_idempotent:
  assumes "classify (arcpy_spec intersects) build sheets fs = Inr ls"
    and "passed ls = Some p"
  shows "\<exists>p' f'.
           classify (arcpy_spec intersects) build sheets (selected_features fs p) =
             Inr \<lparr>passed = Some p', failed = Some f'\<rparr> \<and>
           layer_rows p' = map (\<lambda>i. layer_rows p ! i) (selected p) \<and>
           selected p' = [0..<length (selected p)] \<and>
           selected f' = []"
proof -
  from assms(1) obtain rows where rows: "map_err build fs = Inr rows"
    by (cases "map_err build fs") (simp_all add: classify_def)
  have n: "length rows = length fs" by (rule map_err_length[OF rows])
  let ?P = "\<lambda>i. \<exists>s \<in> set sheets. intersects (shape (rows ! i)) s"
  let ?sel = "filter ?P [0..<length rows]"
  from assms rows have p: "p = \<lparr>layer_rows = rows, selected = ?sel\<rparr>"
    by (auto simp add: classify_spec)
  let ?rows' = "map (\<lambda>i. rows ! i) ?sel"
  have build: "map_err build (selected_features fs p) = Inr ?rows'"
  proof -
    have "map_err (\<lambda>i. build (fs ! i)) ?sel = Inr (map (\<lambda>i. rows ! i) ?sel)"
      by (rule map_err_all) (simp add: map_err_nth[OF rows] n)
    then show ?thesis by (simp add: selected_features_def map_err_map p)
  qed
  have pt: "\<forall>j \<in> set [0..<length ?rows']. \<exists>s \<in> set sheets. intersects (shape (?rows' ! j)) s"
  proof
    fix j assume "j \<in> set [0..<length ?rows']"
    then have j: "j < length ?sel" by simp
    then have "?sel ! j \<in> set ?sel" by (rule nth_mem)
    then have "?P (?sel ! j)" by simp
    with j show "\<exists>s \<in> set sheets. intersects (shape (?rows' ! j)) s" by simp
  qed
  have all: "filter (\<lambda>j. \<exists>s \<in> set sheets. intersects (shape (?rows' ! j)) s) [0..<length ?rows'] =
             [0..<length ?rows']"
    by (rule filter_True[OF pt])
  have none: "filter (\<lambda>j. \<not> (\<exists>s \<in> set sheets. intersects (shape (?rows' ! j)) s))
                [0..<length ?rows'] = []"
    by (rule filter_False) (use pt in blast)
  have "classify (arcpy_spec intersects) build sheets (selected_features fs p) =
          Inr \<lparr>passed = Some \<lparr>layer_rows = ?rows',
                   selected = filter (\<lambda>j. \<exists>s \<in> set sheets. intersects (shape (?rows' ! j)) s)
                                [0..<length ?rows']\<rparr>,
               failed = Some \<lparr>layer_rows = ?rows',
                   selected = filter (\<lambda>j. \<not> (\<exists>s \<in> set sheets. intersects (shape (?rows' ! j)) s))
                                [0..<length ?rows']\<rparr>\<rparr>"
    unfolding classify_spec build by simp
  then have final: "classify (arcpy_spec intersects) build sheets (selected_features fs p) =
          Inr \<lparr>passed = Some \<lparr>layer_rows = ?rows', selected = [0..<length ?rows']\<rparr>,
               failed = Some \<lparr>layer_rows = ?rows', selected = []\<rparr>\<rparr>"
    unfolding all none .
  have lp: "layer_rows p = rows" "selected p = ?sel" by (simp_all add: p)
  show ?thesis
    apply (rule exI[of _ "\<lparr>layer_rows = ?rows', selected = [0..<length ?rows']\<rparr>"])
    apply (rule exI[of _ "\<lparr>layer_rows = ?rows', selected = []\<rparr>"])
    unfolding lp using final by simp
qed


lemma two_points_rows:
  "map_err (point_row (\<lambda>v. ''5''))
     [\<lparr>geometry_json = Some \<lparr>gtype = ''Point'', coordinates = JArr [JNum 1, JNum 1]\<rparr>,
       properties = [(''depth'', JNum 5)]\<rparr>,
      \<lparr>geometry_json = Some \<lparr>gtype = ''Point'', coordinates = JArr [JNum 7, JNum 1]\<rparr>,
       properties = [(''depth'', JNum 5)]\<rparr>] =
   Inr [\<lparr>shape = PointGeometry (JNum 1, JNum 1), field_values = [(''depth'', ''5'')]\<rparr>,
        \<lparr>shape = PointGeometry (JNum 7, JNum 1), field_values = [(''depth'', ''5'')]\<rparr>]"
  by (simp add: point_row_def coordinates_of_def make_point_def nth_py_def attribute_values_def)

theorem empty_boundary_fails_all_witness:
  "classify (arcpy_spec (\<lambda>sh (s :: unit). True)) (point_row (\<lambda>v. ''5'')) []
     [\<lparr>geometry_json = Some \<lparr>gtype = ''Point'', coordinates = JArr [JNum 1, JNum 1]\<rparr>,
       properties = [(''depth'', JNum 5)]\<rparr>,
      \<lparr>geometry_json = Some \<lparr>gtype = ''Point'', coordinates = JArr [JNum 7, JNum 1]\<rparr>,
       properties = [(''depth'', JNum 5)]\<rparr>] =
   Inr \<lparr>passed = Some \<lparr>layer_rows =
            [\<lparr>shape = PointGeometry (JNum 1, JNum 1), field_values = [(''depth'', ''5'')]\<rparr>,
             \<lparr>shape = PointGeometry (JNum 7, JNum 1), field_values = [(''depth'', ''5'')]\<rparr>],
            selected = []\<rparr>,
        failed = Some \<lparr>layer_rows =
            [\<lparr>shape = PointGeometry (JNum 1, JNum 1), field_values = [(''depth'', ''5'')]\<rparr>,
             \<lparr>shape = PointGeometry (JNum 7, JNum 1), field_values = [(''depth'', ''5'')]\<rparr>],
            selected = [0, 1]\<rparr>\<rparr>"
  using empty_boundary_fails_all[OF two_points_rows, of "\<lambda>sh (s :: unit). True"]
  by (simp add: upt_rec[of 0] upt_rec[of "Suc _"])


theorem reclassifying_passed_is_idempotent_witness:
  "\<exists>ls p p' f'.
     classify (arcpy_spec (\<lambda>sh (s :: shape). sh = s)) (point_row (\<lambda>v. ''5''))
       [PointGeometry (JNum 1, JNum 1)]
       [\<lparr>geometry_json = Some \<lparr>gtype = ''Point'', coordinates = JArr [JNum 1, JNum 1]\<rparr>,
         properties = [(''depth'', JNum 5)]\<rparr>,
        \<lparr>geometry_json = Some \<lparr>gtype = ''Point'', coordinates = JArr [JNum 7, JNum 1]\<rparr>,
         properties = [(''depth'', JNum 5)]\<rparr>] = Inr ls \<and>
     passed ls = Some p \<and> selected p = [0] \<and>
     classify (arcpy_spec (\<lambda>sh (s :: shape). sh = s)) (point_row (\<lambda>v. ''5''))
       [PointGeometry (JNum 1, JNum 1)]
       [\<lparr>geometry_json = Some \<lparr>gtype = ''Point'', coordinates = JArr [JNum 1, JNum 1]\<rparr>,
         properties = [(''depth'', JNum 5)]\<rparr>] =
       Inr \<lparr>passed = Some p', failed = Some f'\<rparr> \<and>
     selected p' = [0] \<and> selected f' = []"
proof -
  let ?I = "\<lambda>sh (s :: shape). sh = s"
  let ?fs = "[\<lparr>geometry_json = Some \<lparr>gtype = ''Point'', coordinates = JArr [JNum 1, JNum 1]\<rparr>,
         properties = [(''depth'', JNum 5)]\<rparr>,
        \<lparr>geometry_json = Some \<lparr>gtype = ''Point'', coordinates = JArr [JNum 7, JNum 1]\<rparr>,
         properties = [(''depth'', JNum 5)]\<rparr>]"
  let ?rows = "[\<lparr>shape = PointGeometry (JNum 1, JNum 1), field_values = [(''depth'', ''5'')]\<rparr>,
        \<lparr>shape = PointGeometry (JNum 7, JNum 1), field_values = [(''depth'', ''5'')]\<rparr>]"
  let ?p = "\<lparr>layer_rows = ?rows, selected = [0]\<rparr>"
  let ?ls = "\<lparr>passed = Some ?p, failed = Some \<lparr>layer_rows = ?rows, selected = [1]\<rparr>\<rparr>"
  have c: "classify (arcpy_spec ?I) (point_row (\<lambda>v. ''5'')) [PointGeometry (JNum 1, JNum 1)] ?fs =
           Inr ?ls"
    unfolding classify_spec two_points_rows by (simp add: upt_rec[of 0] upt_rec[of "Suc _"])
  have q: "passed ?ls = Some ?p" by simp
  have sf: "selected_features ?fs ?p =
            [\<lparr>geometry_json = Some \<lparr>gtype = ''Point'', coordinates = JArr [JNum 1, JNum 1]\<rparr>,
              properties = [(''depth'', JNum 5)]\<rparr>]"
    by (simp add: selected_features_def)
  from reclassifying_passed_is_idempotent[OF c q] c sf show ?thesis
    by (auto simp add: upt_rec[of 0] upt_rec[of "Suc _"])
qed

theorem classification_partitions_collection_witness:
  "\<exists>st'. perform_spatial_filter (arcpy_spec (\<lambda>sh (s :: shape). sh = s)) (\<lambda>v. ''5'')
       [PointGeometry (JNum 1, JNum 1)]
       ((enc_init :: layer enc_state)
          \<lparr>heap := [\<lparr>geometry_json = Some \<lparr>gtype = ''Point'', coordinates = JArr [JNum 1, JNum 1]\<rparr>,
                      properties = [(''depth'', JNum 5)]\<rparr>,
                     \<lparr>geometry_json = Some \<lparr>gtype = ''Point'', coordinates = JArr [JNum 7, JNum 1]\<rparr>,
                      properties = [(''depth'', JNum 5)]\<rparr>],
            features := [''Point'' \<mapsto> [0, 1], ''LineString'' \<mapsto> [], ''Polygon'' \<mapsto> []]\<rparr>)
       = Inr st' \<and>
     ''Point'' \<in> supported_kinds \<and>
     (\<exists>ls p f. layers st' ''Point'' = Some ls \<and> passed ls = Some p \<and> failed ls = Some f \<and>
        set (selected p) \<union> set (selected f) = {0..<2} \<and>
        length (selected p) + length (selected f) = 2)"
proof -
  let ?I = "\<lambda>sh (s :: shape). sh = s"
  let ?st = "(enc_init :: layer enc_state)
          \<lparr>heap := [\<lparr>geometry_json = Some \<lparr>gtype = ''Point'', coordinates = JArr [JNum 1, JNum 1]\<rparr>,
                      properties = [(''depth'', JNum 5)]\<rparr>,
                     \<lparr>geometry_json = Some \<lparr>gtype = ''Point'', coordinates = JArr [JNum 7, JNum 1]\<rparr>,
                      properties = [(''depth'', JNum 5)]\<rparr>],
            features := [''Point'' \<mapsto> [0, 1], ''LineString'' \<mapsto> [], ''Polygon'' \<mapsto> []]\<rparr>"
  have k: "''Point'' \<in> supported_kinds" by (simp add: supported_kinds_def)
  have g: "get_features ''Point'' ?st =
        Inr [\<lparr>geometry_json = Some \<lparr>gtype = ''Point'', coordinates = JArr [JNum 1, JNum 1]\<rparr>,
         properties = [(''depth'', JNum 5)]\<rparr>,
        \<lparr>geometry_json = Some \<lparr>gtype = ''Point'', coordinates = JArr [JNum 7, JNum 1]\<rparr>,
         properties = [(''depth'', JNum 5)]\<rparr>]"
    by (simp add: get_features_def enc_init_def)
  have "\<exists>st'. perform_spatial_filter (arcpy_spec ?I) (\<lambda>v. ''5'')
       [PointGeometry (JNum 1, JNum 1)] ?st = Inr st'"
    by (simp add: perform_spatial_filter_def filter_kind_def get_features_def enc_init_def
        classify_spec point_row_def coordinates_of_def make_point_def nth_py_def
        attribute_values_def)
  then obtain st' where r: "perform_spatial_filter (arcpy_spec ?I) (\<lambda>v. ''5'')
       [PointGeometry (JNum 1, JNum 1)] ?st = Inr st'" by blast
  from classification_partitions_collection[OF r k] g k r show ?thesis
    by (intro exI[of _ st']) auto
qed

end
